theory Spec2Isabelle
  imports Complex_Main "HOL-Library.Signed_Division"
begin

section \<open>BlockBreaker: the simulation core of blockbreaker.cpp\<close>

text \<open>
  The theory embeds the game objects (\<^verbatim>\<open>Ball\<close>, \<^verbatim>\<open>Paddle\<close>, \<^verbatim>\<open>Block\<close>) and the class
  \<^verbatim>\<open>BlockBreakerGame\<close> of \<^verbatim>\<open>blockbreaker.cpp\<close>.

  Conventions of the embedding:
  \<^item> a C++ \<^verbatim>\<open>double\<close> is a HOL \<open>real\<close>: arithmetic is exact, there is no rounding, no
    NaN and no infinity (the one use of \<^verbatim>\<open>INFINITY\<close> in the source has a type of its
    own below). \<^verbatim>\<open>M_PI\<close> is \<open>pi\<close>, \<^verbatim>\<open>sqrt\<close>, \<^verbatim>\<open>sin\<close>, \<^verbatim>\<open>cos\<close> are the real functions;
  \<^item> a C++ \<^verbatim>\<open>int\<close> is a HOL \<open>int\<close>; \<^verbatim>\<open>/\<close> on two ints is \<open>sdiv\<close> (truncation towards
    zero), and an int used in a double expression is converted by \<open>of_int\<close>. The ints
    that change are \<^verbatim>\<open>score\<close> and \<^verbatim>\<open>lives\<close>, by 10 and by 1 at a time; the theorems
    take them through values between -1 and 450, so 32 bits never wrap;
  \<^item> record fields carry the name of their struct (\<open>ball_x\<close> for \<^verbatim>\<open>Ball::x\<close>);
  \<^item> \<^verbatim>\<open>rand()\<close> reads a process-wide generator: the state carries the sequence of
    values the coming calls will return (\<open>rand_seq\<close>), and each call takes its head;
  \<^item> the drawing code (cairo, GTK) does not change the game state and is left out.
\<close>

subsection \<open>Game constants\<close>

definition WINDOW_WIDTH :: int where "WINDOW_WIDTH = 800"
definition WINDOW_HEIGHT :: int where "WINDOW_HEIGHT = 600"
definition PADDLE_WIDTH :: int where "PADDLE_WIDTH = 100"
definition PADDLE_HEIGHT :: int where "PADDLE_HEIGHT = 20"
definition BALL_RADIUS :: int where "BALL_RADIUS = 10"
definition BLOCK_WIDTH :: int where "BLOCK_WIDTH = 80"
definition BLOCK_HEIGHT :: int where "BLOCK_HEIGHT = 30"
definition BLOCK_ROWS :: int where "BLOCK_ROWS = 5"
definition BLOCK_COLS :: int where "BLOCK_COLS = 9"
definition BLOCK_SPACING :: int where "BLOCK_SPACING = 5"
definition TOP_MARGIN :: int where "TOP_MARGIN = 50"
definition SIDE_MARGIN :: int where "SIDE_MARGIN = 20"
definition BALL_SPEED :: real where "BALL_SPEED = 5"

subsection \<open>The pseudo-random source\<close>

type_synonym rand_source = "nat \<Rightarrow> nat"

text \<open>\<^verbatim>\<open>rand()\<close>: the value returned, and the source as the next call finds it.\<close>

definition rand :: "rand_source \<Rightarrow> nat \<times> rand_source" where
  "rand g = (g 0, \<lambda>n. g (Suc n))"

subsection \<open>Game objects\<close>

record Ball =
  ball_x :: real
  ball_y :: real
  ball_dx :: real
  ball_dy :: real
  ball_radius :: int

record Paddle =
  paddle_x :: real
  paddle_y :: real
  paddle_width :: int
  paddle_height :: int

record Block =
  block_x :: real
  block_y :: real
  block_width :: int
  block_height :: int
  block_active :: bool
  block_r :: real
  block_g :: real
  block_b :: real

text \<open>\<^verbatim>\<open>Ball::Ball(startX, startY, r)\<close>: the initial direction is upward at 45 degrees.\<close>

definition Ball_new :: "real \<Rightarrow> real \<Rightarrow> int \<Rightarrow> Ball" where
  "Ball_new startX startY r =
     (let angle = pi / 4
      in \<lparr>ball_x = startX, ball_y = startY,
          ball_dx = BALL_SPEED * cos angle, ball_dy = - BALL_SPEED * sin angle,
          ball_radius = r\<rparr>)"

text \<open>\<^verbatim>\<open>Ball::move()\<close>.\<close>

definition Ball_move :: "Ball \<Rightarrow> Ball" where
  "Ball_move b = b\<lparr>ball_x := ball_x b + ball_dx b, ball_y := ball_y b + ball_dy b\<rparr>"

text \<open>\<^verbatim>\<open>Paddle::Paddle(startX, startY, w, h)\<close>.\<close>

definition Paddle_new :: "real \<Rightarrow> real \<Rightarrow> int \<Rightarrow> int \<Rightarrow> Paddle" where
  "Paddle_new startX startY w h =
     \<lparr>paddle_x = startX, paddle_y = startY, paddle_width = w, paddle_height = h\<rparr>"

text \<open>\<^verbatim>\<open>Paddle::move(newX)\<close>: the paddle stays within the window. \<^verbatim>\<open>width / 2\<close> is a
  division of ints.\<close>

definition Paddle_move :: "real \<Rightarrow> Paddle \<Rightarrow> Paddle" where
  "Paddle_move newX p =
     (if newX - of_int (paddle_width p sdiv 2) < 0
        then p\<lparr>paddle_x := of_int (paddle_width p sdiv 2)\<rparr>
      else if newX + of_int (paddle_width p sdiv 2) > of_int WINDOW_WIDTH
        then p\<lparr>paddle_x := of_int (WINDOW_WIDTH - paddle_width p sdiv 2)\<rparr>
      else p\<lparr>paddle_x := newX\<rparr>)"

text \<open>\<^verbatim>\<open>Block::Block(startX, startY, w, h)\<close>: active, with a colour of three calls of
  \<^verbatim>\<open>rand()\<close>.\<close>

definition Block_new :: "real \<Rightarrow> real \<Rightarrow> int \<Rightarrow> int \<Rightarrow> rand_source \<Rightarrow> Block \<times> rand_source" where
  "Block_new startX startY w h g0 =
     (let (v1, g1) = rand g0;
          (v2, g2) = rand g1;
          (v3, g3) = rand g2
      in (\<lparr>block_x = startX, block_y = startY, block_width = w, block_height = h,
           block_active = True,
           block_r = 0.3 + of_nat (v1 mod 70) / 100,
           block_g = 0.3 + of_nat (v2 mod 70) / 100,
           block_b = 0.3 + of_nat (v3 mod 70) / 100\<rparr>, g3))"

subsection \<open>The game\<close>

record Game =
  ball :: Ball
  paddle :: Paddle
  blocks :: "Block list"
  gameRunning :: bool
  gameOver :: bool
  score :: int
  lives :: int
  rand_seq :: rand_source

text \<open>The two loops of \<^verbatim>\<open>resetGame\<close> that fill \<^verbatim>\<open>blocks\<close>: the body of the inner loop,
  the inner loop over the columns of one row, the outer loop over the rows.\<close>

definition emplace_block :: "int \<Rightarrow> int \<Rightarrow> Block list \<times> rand_source \<Rightarrow> Block list \<times> rand_source" where
  "emplace_block row col acc =
     (let blockX = of_int (SIDE_MARGIN + col * (BLOCK_WIDTH + BLOCK_SPACING));
          blockY = of_int (TOP_MARGIN + row * (BLOCK_HEIGHT + BLOCK_SPACING));
          (blk, g) = Block_new blockX blockY BLOCK_WIDTH BLOCK_HEIGHT (snd acc)
      in (fst acc @ [blk], g))"

definition emplace_row :: "int \<Rightarrow> Block list \<times> rand_source \<Rightarrow> Block list \<times> rand_source" where
  "emplace_row row acc = foldl (\<lambda>a col. emplace_block row col a) acc [0..BLOCK_COLS - 1]"

definition init_blocks :: "rand_source \<Rightarrow> Block list \<times> rand_source" where
  "init_blocks g = foldl (\<lambda>a row. emplace_row row a) ([], g) [0..BLOCK_ROWS - 1]"

text \<open>\<^verbatim>\<open>BlockBreakerGame::resetGame()\<close>. It assigns the ball, the paddle, the blocks and
  the two flags; \<^verbatim>\<open>score\<close> and \<^verbatim>\<open>lives\<close> are not assigned.\<close>

definition resetGame :: "Game \<Rightarrow> Game" where
  "resetGame s =
     (let (blks, g) = init_blocks (rand_seq s)
      in s\<lparr>ball := Ball_new (of_int (WINDOW_WIDTH sdiv 2)) (of_int (WINDOW_HEIGHT - 50)) BALL_RADIUS,
           paddle := Paddle_new (of_int (WINDOW_WIDTH sdiv 2)) (of_int (WINDOW_HEIGHT - 30))
                       PADDLE_WIDTH PADDLE_HEIGHT,
           blocks := blks,
           rand_seq := g,
           gameRunning := False,
           gameOver := False\<rparr>)"

text \<open>The constructor \<^verbatim>\<open>BlockBreakerGame()\<close>: the member initialisers, then
  \<^verbatim>\<open>resetGame()\<close>. Before that call the two \<^verbatim>\<open>unique_ptr\<close>s are null and the
  vector is empty; \<^verbatim>\<open>resetGame\<close> assigns all three without reading them, so the ball
  and paddle given here are never seen.\<close>

definition new_game :: "rand_source \<Rightarrow> Game" where
  "new_game g =
     resetGame \<lparr>ball = Ball_new 0 0 0, paddle = Paddle_new 0 0 0 0, blocks = [],
                gameRunning = False, gameOver = False, score = 0, lives = 3, rand_seq = g\<rparr>"

text \<open>\<^verbatim>\<open>start()\<close>.\<close>

definition start :: "Game \<Rightarrow> Game" where
  "start s = s\<lparr>gameRunning := True\<rparr>"

text \<open>\<^verbatim>\<open>movePaddle(x)\<close>: before the game has started the ball moves with the paddle.\<close>

definition movePaddle :: "real \<Rightarrow> Game \<Rightarrow> Game" where
  "movePaddle newX s =
     (let s1 = s\<lparr>paddle := Paddle_move newX (paddle s)\<rparr>
      in if \<not> gameRunning s1 \<and> \<not> gameOver s1
         then s1\<lparr>ball := (ball s1)\<lparr>ball_x := paddle_x (paddle s1)\<rparr>\<rparr>
         else s1)"

subsection \<open>One frame: \<^verbatim>\<open>update()\<close>\<close>

text \<open>Collisions with the walls (source lines 188 to 195).\<close>

definition wall_collision :: "Ball \<Rightarrow> Ball" where
  "wall_collision b =
     (let b1 = (if ball_x b - of_int (ball_radius b) \<le> 0
                   \<or> ball_x b + of_int (ball_radius b) \<ge> of_int WINDOW_WIDTH
                then b\<lparr>ball_dx := - ball_dx b\<rparr> else b)
      in if ball_y b1 - of_int (ball_radius b1) \<le> 0
         then b1\<lparr>ball_dy := - ball_dy b1\<rparr> else b1)"

text \<open>The condition of the collision with the paddle (lines 198 to 201), and the
  reflection it guards (lines 203 to 212). Where \<^verbatim>\<open>width / 2\<close> is 0 the source divides
  a double by zero; the paddle of every game has width 100.\<close>

definition paddle_hit :: "Ball \<Rightarrow> Paddle \<Rightarrow> bool" where
  "paddle_hit b p \<longleftrightarrow>
     ball_y b + of_int (ball_radius b) \<ge> paddle_y p - of_int (paddle_height p sdiv 2) \<and>
     ball_y b - of_int (ball_radius b) \<le> paddle_y p + of_int (paddle_height p sdiv 2) \<and>
     ball_x b \<ge> paddle_x p - of_int (paddle_width p sdiv 2) \<and>
     ball_x b \<le> paddle_x p + of_int (paddle_width p sdiv 2)"

definition paddle_reflect :: "Ball \<Rightarrow> Paddle \<Rightarrow> Ball" where
  "paddle_reflect b p =
     (let hitPos = (ball_x b - paddle_x p) / of_int (paddle_width p sdiv 2);
          angle = hitPos * (pi / 3);
          b1 = b\<lparr>ball_dy := - \<bar>ball_dy b\<bar>\<rparr>;
          speed = sqrt (ball_dx b1 * ball_dx b1 + ball_dy b1 * ball_dy b1)
      in b1\<lparr>ball_dx := speed * sin angle, ball_dy := - speed * cos angle\<rparr>)"

definition paddle_collision :: "Ball \<Rightarrow> Paddle \<Rightarrow> Ball" where
  "paddle_collision b p = (if paddle_hit b p then paddle_reflect b p else b)"

text \<open>The closest point of a block to the ball's centre, and the test of line 233.\<close>

definition closestX :: "Ball \<Rightarrow> Block \<Rightarrow> real" where
  "closestX b blk = max (block_x blk) (min (ball_x b) (block_x blk + of_int (block_width blk)))"

definition closestY :: "Ball \<Rightarrow> Block \<Rightarrow> real" where
  "closestY b blk = max (block_y blk) (min (ball_y b) (block_y blk + of_int (block_height blk)))"

definition block_hit :: "Ball \<Rightarrow> Block \<Rightarrow> bool" where
  "block_hit b blk \<longleftrightarrow>
     (let distanceX = ball_x b - closestX b blk;
          distanceY = ball_y b - closestY b blk;
          distanceSquared = distanceX * distanceX + distanceY * distanceY
      in distanceSquared < of_int (ball_radius b * ball_radius b))"

text \<open>The times of collision of lines 248 to 251 are doubles or \<^verbatim>\<open>INFINITY\<close>.
  \<open>toi_min\<close> is \<^verbatim>\<open>std::min\<close>, which returns its second argument when that is the
  smaller and its first otherwise.\<close>

datatype toi = Finite real | INFINITY

fun toi_less :: "toi \<Rightarrow> toi \<Rightarrow> bool" where
  "toi_less (Finite a) (Finite b) = (a < b)"
| "toi_less (Finite a) INFINITY = True"
| "toi_less INFINITY t = False"

definition toi_min :: "toi \<Rightarrow> toi \<Rightarrow> toi" where
  "toi_min a b = (if toi_less b a then b else a)"

text \<open>The side by the time of impact (lines 238 to 259):
  0 is the top, 1 the right, 2 the bottom, 3 the left.\<close>

definition toi_side :: "Ball \<Rightarrow> Block \<Rightarrow> real" where
  "toi_side b blk =
     (let ball_right = ball_x b + of_int (ball_radius b);
          ball_left = ball_x b - of_int (ball_radius b);
          ball_top = ball_y b - of_int (ball_radius b);
          ball_bottom = ball_y b + of_int (ball_radius b);
          block_right = block_x blk + of_int (block_width blk);
          block_left = block_x blk;
          block_top = block_y blk;
          block_bottom = block_y blk + of_int (block_height blk);
          t_left = (if ball_dx b > 0 then Finite ((block_left - ball_right) / ball_dx b) else INFINITY);
          t_right = (if ball_dx b < 0 then Finite ((block_right - ball_left) / ball_dx b) else INFINITY);
          t_top = (if ball_dy b > 0 then Finite ((block_top - ball_bottom) / ball_dy b) else INFINITY);
          t_bottom = (if ball_dy b < 0 then Finite ((block_bottom - ball_top) / ball_dy b) else INFINITY);
          t = toi_min (toi_min t_left t_right) (toi_min t_top t_bottom)
      in if t = t_left then 3
         else if t = t_right then 1
         else if t = t_top then 0
         else 2)"

text \<open>Lines 263 to 266 assign \<^verbatim>\<open>collisionSide\<close> again, in each of their four branches.
  The first argument is the value the variable holds when they are reached.\<close>

definition closest_point_side :: "real \<Rightarrow> Ball \<Rightarrow> Block \<Rightarrow> real" where
  "closest_point_side collisionSide b blk =
     (if closestX b blk = block_x blk then 3
      else if closestX b blk = block_x blk + of_int (block_width blk) then 1
      else if closestY b blk = block_y blk then 0
      else 2)"

text \<open>The value of \<^verbatim>\<open>collisionSide\<close> at line 267, for a ball that hits the block.\<close>

definition collision_side :: "Ball \<Rightarrow> Block \<Rightarrow> real" where
  "collision_side b blk = closest_point_side (toi_side b blk) b blk"

text \<open>\<^verbatim>\<open>static_cast<int>\<close> of a double: truncation towards zero.\<close>

definition static_cast_int :: "real \<Rightarrow> int" where
  "static_cast_int v = (if 0 \<le> v then \<lfloor>v\<rfloor> else \<lceil>v\<rceil>)"

text \<open>The response to a hit (lines 274 to 292): the \<^verbatim>\<open>switch\<close> on the side cast to
  \<^verbatim>\<open>int\<close>, with one call of \<^verbatim>\<open>rand()\<close>, then the speed normalised. The \<^verbatim>\<open>switch\<close>
  has no default. Where \<^verbatim>\<open>speed\<close> is 0 the source divides a double by zero.\<close>

definition bounce :: "real \<Rightarrow> Ball \<Rightarrow> rand_source \<Rightarrow> Ball \<times> rand_source" where
  "bounce collisionSide b g0 =
     (let side = static_cast_int collisionSide;
          (b1, g1) =
            (if side = 0 \<or> side = 2 then
               (let (v, g) = rand g0;
                    b' = b\<lparr>ball_dy := - ball_dy b\<rparr>
                in (b'\<lparr>ball_dx := ball_dx b' + (of_nat (v mod 100) / 500 - 0.1)\<rparr>, g))
             else if side = 1 \<or> side = 3 then
               (let (v, g) = rand g0;
                    b' = b\<lparr>ball_dx := - ball_dx b\<rparr>
                in (b'\<lparr>ball_dy := ball_dy b' + (of_nat (v mod 100) / 500 - 0.1)\<rparr>, g))
             else (b, g0));
          speed = sqrt (ball_dx b1 * ball_dx b1 + ball_dy b1 * ball_dy b1);
          b2 = b1\<lparr>ball_dx := (ball_dx b1 / speed) * BALL_SPEED\<rparr>;
          b3 = b2\<lparr>ball_dy := (ball_dy b2 / speed) * BALL_SPEED\<rparr>
      in (b3, g1))"

text \<open>The loop over the blocks (lines 216 to 296): inactive blocks are skipped, the first
  active block the ball hits is made inactive and scores 10, and the loop ends there.
  The result is the blocks, the ball, the score and the random source after the loop.\<close>

fun block_collisions ::
  "Block list \<Rightarrow> Ball \<Rightarrow> int \<Rightarrow> rand_source \<Rightarrow> Block list \<times> Ball \<times> int \<times> rand_source" where
  "block_collisions [] b sc g = ([], b, sc, g)"
| "block_collisions (blk # rest) b sc g =
     (if \<not> block_active blk then
        (case block_collisions rest b sc g of (rest', r) \<Rightarrow> (blk # rest', r))
      else if block_hit b blk then
        (case bounce (collision_side b blk) b g of
           (b', g') \<Rightarrow> (blk\<lparr>block_active := False\<rparr> # rest, b', sc + 10, g'))
      else
        (case block_collisions rest b sc g of (rest', r) \<Rightarrow> (blk # rest', r)))"

text \<open>The ball below the screen (lines 299 to 311).\<close>

definition bottom_check :: "Game \<Rightarrow> Game" where
  "bottom_check s =
     (if ball_y (ball s) - of_int (ball_radius (ball s)) > of_int WINDOW_HEIGHT then
        (let s1 = s\<lparr>lives := lives s - 1\<rparr>
         in if lives s1 \<le> 0 then s1\<lparr>gameOver := True\<rparr>
            else s1\<lparr>ball := (ball s1)\<lparr>ball_x := paddle_x (paddle s1),
                                      ball_y := of_int (WINDOW_HEIGHT - 50),
                                      ball_dx := BALL_SPEED * cos (pi / 4),
                                      ball_dy := - BALL_SPEED * sin (pi / 4)\<rparr>,
                   gameRunning := False\<rparr>)
      else s)"

text \<open>All blocks destroyed (lines 314 to 324).\<close>

definition allBlocksDestroyed :: "Block list \<Rightarrow> bool" where
  "allBlocksDestroyed bs = list_all (\<lambda>blk. \<not> block_active blk) bs"

definition victory_check :: "Game \<Rightarrow> Game" where
  "victory_check s = (if allBlocksDestroyed (blocks s) then s\<lparr>gameOver := True\<rparr> else s)"

text \<open>\<^verbatim>\<open>update()\<close>. The source returns \<^verbatim>\<open>true\<close> on every path; the model returns the
  state.\<close>

definition update :: "Game \<Rightarrow> Game" where
  "update s =
     (if \<not> gameRunning s \<or> gameOver s then s
      else
        (let b1 = Ball_move (ball s);
             b2 = wall_collision b1;
             b3 = paddle_collision b2 (paddle s)
         in case block_collisions (blocks s) b3 (score s) (rand_seq s) of
              (blks, b4, sc, g) \<Rightarrow>
                victory_check
                  (bottom_check (s\<lparr>ball := b4, blocks := blks, score := sc, rand_seq := g\<rparr>))))"

subsection \<open>The callers\<close>

text \<open>\<^verbatim>\<open>on_button_press\<close>: a click is ignored while the game runs; otherwise it resets a
  finished game and starts.\<close>

definition on_button_press :: "Game \<Rightarrow> Game" where
  "on_button_press s =
     (if \<not> gameRunning s
      then start (if gameOver s then resetGame s else s)
      else s)"

text \<open>An event is a call of one of the public operations of the game, or a click.
  \<^verbatim>\<open>on_motion_notify\<close> is \<open>MovePaddle\<close> and \<^verbatim>\<open>on_timeout\<close> is \<open>Update\<close>.\<close>

datatype event = ResetGame | MovePaddle real | Start | Update | Click

fun step :: "Game \<Rightarrow> event \<Rightarrow> Game" where
  "step s ResetGame = resetGame s"
| "step s (MovePaddle v) = movePaddle v s"
| "step s Start = start s"
| "step s Update = update s"
| "step s Click = on_button_press s"

text \<open>The state after a sequence of events.\<close>

definition run :: "Game \<Rightarrow> event list \<Rightarrow> Game" where
  "run s evs = foldl step s evs"


subsection \<open>The rules of the specification that the code is compared with\<close>

text \<open>The nearest-point rule of the specification for the side of a block that is hit:
  ``if \<^verbatim>\<open>closestX == block.x\<close> then left; if \<^verbatim>\<open>closestX == block.x + BW\<close> then right; if
  \<^verbatim>\<open>closestY == block.y\<close> then top; else bottom'', with \<open>BW\<close> the width of the block.
  \<open>side_code\<close> is the numbering of the sides in the source.\<close>

datatype side = Top | Right | Bottom | Left

fun side_code :: "side \<Rightarrow> real" where
  "side_code Top = 0"
| "side_code Right = 1"
| "side_code Bottom = 2"
| "side_code Left = 3"

definition nearest_point_side :: "real \<Rightarrow> real \<Rightarrow> Block \<Rightarrow> side" where
  "nearest_point_side cX cY blk =
     (if cX = block_x blk then Left
      else if cX = block_x blk + of_int (block_width blk) then Right
      else if cY = block_y blk then Top
      else Bottom)"

text \<open>The block step and the frame of the specification, which classify by the nearest
  point only and compute no time of impact. They are \<open>block_collisions\<close> and \<open>update\<close>
  with \<open>collision_side\<close> replaced by the rule above.\<close>

fun nearest_block_collisions ::
  "Block list \<Rightarrow> Ball \<Rightarrow> int \<Rightarrow> rand_source \<Rightarrow> Block list \<times> Ball \<times> int \<times> rand_source" where
  "nearest_block_collisions [] b sc g = ([], b, sc, g)"
| "nearest_block_collisions (blk # rest) b sc g =
     (if \<not> block_active blk then
        (case nearest_block_collisions rest b sc g of (rest', r) \<Rightarrow> (blk # rest', r))
      else if block_hit b blk then
        (case bounce (side_code (nearest_point_side (closestX b blk) (closestY b blk) blk)) b g of
           (b', g') \<Rightarrow> (blk\<lparr>block_active := False\<rparr> # rest, b', sc + 10, g'))
      else
        (case nearest_block_collisions rest b sc g of (rest', r) \<Rightarrow> (blk # rest', r)))"

definition nearest_tick :: "Game \<Rightarrow> Game" where
  "nearest_tick s =
     (if \<not> gameRunning s \<or> gameOver s then s
      else
        (let b1 = Ball_move (ball s);
             b2 = wall_collision b1;
             b3 = paddle_collision b2 (paddle s)
         in case nearest_block_collisions (blocks s) b3 (score s) (rand_seq s) of
              (blks, b4, sc, g) \<Rightarrow>
                victory_check
                  (bottom_check (s\<lparr>ball := b4, blocks := blks, score := sc, rand_seq := g\<rparr>))))"

text \<open>The paddle test in the words of the specification: the ball's bounding extent
  (centre plus and minus the radius, in both axes) overlaps the paddle's bounding
  rectangle (centre plus and minus half the width, and half the height).\<close>

definition bounding_boxes_overlap :: "Ball \<Rightarrow> Paddle \<Rightarrow> bool" where
  "bounding_boxes_overlap b p \<longleftrightarrow>
     ball_x b + of_int (ball_radius b) \<ge> paddle_x p - of_int (paddle_width p) / 2 \<and>
     ball_x b - of_int (ball_radius b) \<le> paddle_x p + of_int (paddle_width p) / 2 \<and>
     ball_y b + of_int (ball_radius b) \<ge> paddle_y p - of_int (paddle_height p) / 2 \<and>
     ball_y b - of_int (ball_radius b) \<le> paddle_y p + of_int (paddle_height p) / 2"

subsection \<open>Notions of the statements and proofs\<close>

text \<open>The number of inactive blocks.\<close>

definition inactive_count :: "Block list \<Rightarrow> int" where
  "inactive_count bs = int (length (filter (\<lambda>blk. \<not> block_active blk) bs))"

text \<open>The rectangle of a block, and the rectangles of the grid that \<^verbatim>\<open>resetGame\<close> lays
  out: row \<open>row\<close> and column \<open>col\<close> at \<open>(20 + 85 col, 50 + 35 row)\<close>, 80 wide and 30
  high.\<close>

definition block_rect :: "Block \<Rightarrow> real \<times> real \<times> int \<times> int" where
  "block_rect blk = (block_x blk, block_y blk, block_width blk, block_height blk)"

definition grid_rect :: "int \<Rightarrow> int \<Rightarrow> real \<times> real \<times> int \<times> int" where
  "grid_rect row col = (of_int (20 + col * 85), of_int (50 + row * 35), 80, 30)"

definition grid_rects :: "(real \<times> real \<times> int \<times> int) list" where
  "grid_rects = concat (map (\<lambda>row. map (grid_rect row) [0..8]) [0..4])"

text \<open>The dimensions every game has: the radius, the paddle's size, height and range,
  and the grid of blocks.\<close>

definition standard :: "Game \<Rightarrow> bool" where
  "standard s \<longleftrightarrow>
     ball_radius (ball s) = BALL_RADIUS \<and>
     paddle_width (paddle s) = PADDLE_WIDTH \<and>
     paddle_height (paddle s) = PADDLE_HEIGHT \<and>
     paddle_y (paddle s) = 570 \<and>
     50 \<le> paddle_x (paddle s) \<and> paddle_x (paddle s) \<le> 750 \<and>
     map block_rect (blocks s) = grid_rects"

text \<open>The speed of the ball is \<^verbatim>\<open>BALL_SPEED\<close>.\<close>

definition speed_ok :: "Ball \<Rightarrow> bool" where
  "speed_ok b \<longleftrightarrow> (ball_dx b)\<^sup>2 + (ball_dy b)\<^sup>2 = 25"

text \<open>How far the centre of the ball gets past the side walls: no further than one
  frame's movement, and a ball that is past a wall and still moves outwards ends its
  next frame within that bound.\<close>

definition x_bounded :: "Ball \<Rightarrow> bool" where
  "x_bounded b \<longleftrightarrow>
     - 5 \<le> ball_x b \<and> ball_x b \<le> 805 \<and>
     (790 \<le> ball_x b \<and> 0 < ball_dx b \<longrightarrow> ball_x b + ball_dx b \<le> 805) \<and>
     (ball_x b \<le> 10 \<and> ball_dx b < 0 \<longrightarrow> - 5 \<le> ball_x b + ball_dx b)"

definition y_bounded :: "Game \<Rightarrow> bool" where
  "y_bounded s \<longleftrightarrow> ball_y (ball s) \<le> 615 \<and> (gameOver s \<or> ball_y (ball s) \<le> 610)"

definition game_inv :: "Game \<Rightarrow> bool" where
  "game_inv s \<longleftrightarrow> standard s \<and> speed_ok (ball s) \<and> x_bounded (ball s) \<and> y_bounded s"

text \<open>Free flight: the ball after \<open>n\<close> frames of unchanged velocity, and the positions at
  which a frame changes nothing but the ball's position (away from the walls, below the
  grid, not on the paddle at \<open>px\<close>, not below the screen).\<close>

definition fly :: "nat \<Rightarrow> Ball \<Rightarrow> Ball" where
  "fly n b = b\<lparr>ball_x := ball_x b + of_nat n * ball_dx b, ball_y := ball_y b + of_nat n * ball_dy b\<rparr>"

definition free_pos :: "real \<Rightarrow> real \<Rightarrow> real \<Rightarrow> bool" where
  "free_pos px x y \<longleftrightarrow>
     10 < x \<and> x < 790 \<and> 230 \<le> y \<and> y \<le> 610 \<and> (y < 550 \<or> 50 < \<bar>x - px\<bar> \<or> 590 < y)"

text \<open>The diagonal component of the initial velocity, \<open>5 cos (pi / 4)\<close>.\<close>

definition diag :: real where
  "diag = 5 * sqrt 2 / 2"

text \<open>A generator that returns 50 at every call.\<close>

definition steady_rand :: rand_source where
  "steady_rand n = 50"

text \<open>The states of the scenarios S3, S5 and of a ball beside the paddle: a new game,
  started, with the ball and the paddle placed.\<close>

definition scenario_S5 :: "rand_source \<Rightarrow> Game" where
  "scenario_S5 g =
     (new_game g)\<lparr>ball := \<lparr>ball_x = 400, ball_y = 590, ball_dx = 0, ball_dy = 5,
                            ball_radius = BALL_RADIUS\<rparr>,
                  paddle := (paddle (new_game g))\<lparr>paddle_x := 100\<rparr>,
                  gameRunning := True\<rparr>"

definition scenario_S3_ball :: Ball where
  "scenario_S3_ball = \<lparr>ball_x = 450, ball_y = 575, ball_dx = 0, ball_dy = 5, ball_radius = BALL_RADIUS\<rparr>"

definition scenario_S3_paddle :: Paddle where
  "scenario_S3_paddle = Paddle_new 400 570 PADDLE_WIDTH PADDLE_HEIGHT"

definition beside_paddle :: Game where
  "beside_paddle =
     (new_game steady_rand)\<lparr>ball := \<lparr>ball_x = 455, ball_y = 560, ball_dx = 0, ball_dy = 5,
                                      ball_radius = BALL_RADIUS\<rparr>,
                            gameRunning := True\<rparr>"

text \<open>One ball played without moving the paddle: a start and 199 frames. Three balls,
  each after a reset (the first reset is the constructor's). The game that has been lost
  is a new game after three balls, with the steady generator.\<close>

definition one_ball :: "event list" where
  "one_ball = Start # replicate 199 Update"

definition three_balls :: "event list" where
  "three_balls = one_ball @ ResetGame # one_ball @ ResetGame # one_ball"

definition finished_game :: Game where
  "finished_game = run (new_game steady_rand) three_balls"

text \<open>The first block of the grid, and a ball under it that moves up and to the right.\<close>

definition first_block :: Block where
  "first_block = fst (Block_new 20 50 BLOCK_WIDTH BLOCK_HEIGHT steady_rand)"

definition rising_ball :: Ball where
  "rising_ball = \<lparr>ball_x = 60, ball_y = 80, ball_dx = 3, ball_dy = - 4, ball_radius = BALL_RADIUS\<rparr>"

text \<open>A box of positions, open in \<open>x\<close> and closed in \<open>y\<close>.\<close>

definition in_box :: "real \<Rightarrow> real \<Rightarrow> real \<Rightarrow> real \<Rightarrow> real \<Rightarrow> real \<Rightarrow> bool" where
  "in_box xl xh yl yh x y \<longleftrightarrow> xl < x \<and> x < xh \<and> yl \<le> y \<and> y \<le> yh"

text \<open>The accounts of a game: the score is ten times the number of inactive blocks, the
  lives are not negative, the game is over exactly when no life or no active block is
  left, and a game that is over is still marked as running.\<close>

definition accounts_ok :: "Game \<Rightarrow> bool" where
  "accounts_ok s \<longleftrightarrow>
     score s = 10 * inactive_count (blocks s) \<and> 0 \<le> lives s \<and>
     (gameOver s \<longleftrightarrow> lives s = 0 \<or> allBlocksDestroyed (blocks s)) \<and>
     (gameOver s \<longrightarrow> gameRunning s)"

section \<open>Properties\<close>

lemmas consts_defs =
  WINDOW_WIDTH_def WINDOW_HEIGHT_def PADDLE_WIDTH_def PADDLE_HEIGHT_def BALL_RADIUS_def
  BLOCK_WIDTH_def BLOCK_HEIGHT_def BLOCK_ROWS_def BLOCK_COLS_def BLOCK_SPACING_def
  TOP_MARGIN_def SIDE_MARGIN_def BALL_SPEED_def

subsection \<open>Constants and constructors\<close>

lemma sdiv_consts [simp]:
  "(100::int) sdiv 2 = 50" "(20::int) sdiv 2 = 10" "(800::int) sdiv 2 = 400"
  by (simp_all add: signed_divide_int_def)

lemma resetGame_score_lives: "score (resetGame s) = score s \<and> lives (resetGame s) = lives s"
  by (simp add: resetGame_def split: prod.split)

lemma resetGame_flags: "\<not> gameRunning (resetGame s) \<and> \<not> gameOver (resetGame s)"
  by (simp add: resetGame_def split: prod.split)

lemma resetGame_ball: "ball (resetGame s) = Ball_new 400 550 10"
  by (simp add: resetGame_def consts_defs split: prod.split)

lemma resetGame_paddle: "paddle (resetGame s) = Paddle_new 400 570 100 20"
  by (simp add: resetGame_def consts_defs split: prod.split)

lemma resetGame_blocks: "blocks (resetGame s) = fst (init_blocks (rand_seq s))"
  by (simp add: resetGame_def split: prod.split)

lemma resetGame_rand_seq: "rand_seq (resetGame s) = snd (init_blocks (rand_seq s))"
  by (simp add: resetGame_def split: prod.split)

lemma Paddle_move_clamp:
  "paddle_width p = PADDLE_WIDTH \<Longrightarrow> Paddle_move v p = p\<lparr>paddle_x := max 50 (min 750 v)\<rparr>"
  by (auto simp: Paddle_move_def consts_defs max_def min_def)

subsection \<open>The grid of blocks\<close>

lemma emplace_block_rects:
  "map block_rect (fst (emplace_block row col acc)) = map block_rect (fst acc) @ [grid_rect row col]"
  by (simp add: emplace_block_def Block_new_def rand_def block_rect_def grid_rect_def consts_defs
      Let_def split: prod.split)

lemma emplace_block_active:
  "list_all block_active (fst (emplace_block row col acc)) = list_all block_active (fst acc)"
  by (simp add: emplace_block_def Block_new_def rand_def Let_def split: prod.split)

lemma emplace_cols_rects:
  "map block_rect (fst (foldl (\<lambda>a col. emplace_block row col a) acc cols)) =
     map block_rect (fst acc) @ map (grid_rect row) cols"
  by (induction cols arbitrary: acc) (simp_all add: emplace_block_rects)

lemma emplace_cols_active:
  "list_all block_active (fst (foldl (\<lambda>a col. emplace_block row col a) acc cols)) =
     list_all block_active (fst acc)"
  by (induction cols arbitrary: acc) (simp_all add: emplace_block_active)

lemma emplace_rows_rects:
  "map block_rect (fst (foldl (\<lambda>a row. emplace_row row a) acc rows)) =
     map block_rect (fst acc) @ concat (map (\<lambda>row. map (grid_rect row) [0..8]) rows)"
  by (induction rows arbitrary: acc) (simp_all add: emplace_row_def emplace_cols_rects BLOCK_COLS_def)

lemma emplace_rows_active:
  "list_all block_active (fst (foldl (\<lambda>a row. emplace_row row a) acc rows)) =
     list_all block_active (fst acc)"
  by (induction rows arbitrary: acc) (simp_all add: emplace_row_def emplace_cols_active)

lemma init_blocks_rects: "map block_rect (fst (init_blocks g)) = grid_rects"
  by (simp add: init_blocks_def emplace_rows_rects grid_rects_def BLOCK_ROWS_def)

lemma init_blocks_active: "list_all block_active (fst (init_blocks g))"
  by (simp add: init_blocks_def emplace_rows_active)

lemma length_grid_rects: "length grid_rects = 45"
  by (simp add: grid_rects_def upto_rec1)

lemma grid_rects_D:
  "r \<in> set grid_rects \<Longrightarrow> \<exists>row col. 0 \<le> row \<and> row \<le> 4 \<and> 0 \<le> col \<and> col \<le> 8 \<and> r = grid_rect row col"
  by (fastforce simp: grid_rects_def)

lemma grid_rects_I:
  "0 \<le> row \<Longrightarrow> row \<le> 4 \<Longrightarrow> 0 \<le> col \<Longrightarrow> col \<le> 8 \<Longrightarrow> grid_rect row col \<in> set grid_rects"
  by (fastforce simp: grid_rects_def)

subsection \<open>The loop over the blocks\<close>

lemma block_collisions_miss:
  "\<forall>blk\<in>set bs. block_active blk \<longrightarrow> \<not> block_hit b blk \<Longrightarrow> block_collisions bs b sc g = (bs, b, sc, g)"
  by (induction bs) auto

lemma block_collisions_hit:
  "\<exists>blk\<in>set bs. block_active blk \<and> block_hit b blk \<Longrightarrow>
   \<exists>pre blk post. bs = pre @ blk # post \<and> block_active blk \<and> block_hit b blk \<and>
      (\<forall>c\<in>set pre. block_active c \<longrightarrow> \<not> block_hit b c) \<and>
      block_collisions bs b sc g =
        (pre @ blk\<lparr>block_active := False\<rparr> # post,
         fst (bounce (collision_side b blk) b g), sc + 10,
         snd (bounce (collision_side b blk) b g))"
proof (induction bs)
  case Nil
  then show ?case by simp
next
  case (Cons a bs)
  show ?case
  proof (cases "block_active a \<and> block_hit b a")
    case True
    then have "block_collisions (a # bs) b sc g =
        ([] @ a\<lparr>block_active := False\<rparr> # bs,
         fst (bounce (collision_side b a) b g), sc + 10,
         snd (bounce (collision_side b a) b g))"
      by (simp split: prod.split)
    with True show ?thesis by (intro exI[of _ "[]"] exI[of _ a] exI[of _ bs]) simp
  next
    case False
    with Cons.prems have "\<exists>blk\<in>set bs. block_active blk \<and> block_hit b blk" by auto
    from Cons.IH[OF this] obtain pre blk post where
      h: "bs = pre @ blk # post" "block_active blk" "block_hit b blk"
         "\<forall>c\<in>set pre. block_active c \<longrightarrow> \<not> block_hit b c"
         "block_collisions bs b sc g =
            (pre @ blk\<lparr>block_active := False\<rparr> # post,
             fst (bounce (collision_side b blk) b g), sc + 10,
             snd (bounce (collision_side b blk) b g))"
      by blast
    from False h show ?thesis
      by (intro exI[of _ "a # pre"] exI[of _ blk] exI[of _ post]) auto
  qed
qed

subsection \<open>The phases of a frame, field by field\<close>

lemma Ball_move_simps [simp]:
  "ball_x (Ball_move b) = ball_x b + ball_dx b"
  "ball_y (Ball_move b) = ball_y b + ball_dy b"
  "ball_dx (Ball_move b) = ball_dx b"
  "ball_dy (Ball_move b) = ball_dy b"
  "ball_radius (Ball_move b) = ball_radius b"
  by (simp_all add: Ball_move_def)

lemma wall_collision_simps [simp]:
  "ball_x (wall_collision b) = ball_x b"
  "ball_y (wall_collision b) = ball_y b"
  "ball_radius (wall_collision b) = ball_radius b"
  by (simp_all add: wall_collision_def Let_def)

lemma wall_collision_dx:
  "ball_dx (wall_collision b) =
     (if ball_x b - of_int (ball_radius b) \<le> 0 \<or> ball_x b + of_int (ball_radius b) \<ge> of_int WINDOW_WIDTH
      then - ball_dx b else ball_dx b)"
  by (simp add: wall_collision_def Let_def)

lemma wall_collision_dy:
  "ball_dy (wall_collision b) =
     (if ball_y b - of_int (ball_radius b) \<le> 0 then - ball_dy b else ball_dy b)"
  by (simp add: wall_collision_def Let_def)

lemma wall_collision_speed:
  "(ball_dx (wall_collision b))\<^sup>2 + (ball_dy (wall_collision b))\<^sup>2 = (ball_dx b)\<^sup>2 + (ball_dy b)\<^sup>2"
  by (simp add: wall_collision_dx wall_collision_dy)

lemma paddle_collision_simps [simp]:
  "ball_x (paddle_collision b p) = ball_x b"
  "ball_y (paddle_collision b p) = ball_y b"
  "ball_radius (paddle_collision b p) = ball_radius b"
  by (simp_all add: paddle_collision_def paddle_reflect_def Let_def)

lemma paddle_reflect_velocity:
  "ball_dx (paddle_reflect b p) =
      sqrt ((ball_dx b)\<^sup>2 + (ball_dy b)\<^sup>2) * sin ((ball_x b - paddle_x p) / of_int (paddle_width p sdiv 2) * (pi / 3))
   \<and> ball_dy (paddle_reflect b p) =
      - sqrt ((ball_dx b)\<^sup>2 + (ball_dy b)\<^sup>2) * cos ((ball_x b - paddle_x p) / of_int (paddle_width p sdiv 2) * (pi / 3))"
  by (simp add: paddle_reflect_def Let_def power2_eq_square)

lemma paddle_collision_speed:
  "(ball_dx (paddle_collision b p))\<^sup>2 + (ball_dy (paddle_collision b p))\<^sup>2 = (ball_dx b)\<^sup>2 + (ball_dy b)\<^sup>2"
proof (cases "paddle_hit b p")
  case True
  define s where "s = sqrt ((ball_dx b)\<^sup>2 + (ball_dy b)\<^sup>2)"
  define a where "a = (ball_x b - paddle_x p) / of_int (paddle_width p sdiv 2) * (pi / 3)"
  have s2: "s\<^sup>2 = (ball_dx b)\<^sup>2 + (ball_dy b)\<^sup>2" by (simp add: s_def)
  have "(ball_dx (paddle_collision b p))\<^sup>2 + (ball_dy (paddle_collision b p))\<^sup>2
          = (s * sin a)\<^sup>2 + (s * cos a)\<^sup>2"
    using True paddle_reflect_velocity[of b p] by (simp add: paddle_collision_def s_def a_def)
  also have "\<dots> = s\<^sup>2 * ((sin a)\<^sup>2 + (cos a)\<^sup>2)"
    unfolding power_mult_distrib distrib_left ..
  also have "\<dots> = s\<^sup>2" unfolding sin_cos_squared_add by simp
  finally show ?thesis using s2 by simp
next
  case False
  then show ?thesis by (simp add: paddle_collision_def)
qed

lemma bounce_simps [simp]:
  "ball_x (fst (bounce c b g)) = ball_x b"
  "ball_y (fst (bounce c b g)) = ball_y b"
  "ball_radius (fst (bounce c b g)) = ball_radius b"
  by (simp_all add: bounce_def static_cast_int_def Let_def rand_def split: prod.split)

lemma normalise_speed:
  fixes vx vy :: real
  assumes "vx \<noteq> 0 \<or> vy \<noteq> 0"
  shows "(vx / sqrt (vx * vx + vy * vy) * 5)\<^sup>2 + (vy / sqrt (vx * vx + vy * vy) * 5)\<^sup>2 = 25"
proof -
  define q where "q = vx * vx + vy * vy"
  have qpos: "0 < q" using assms unfolding q_def
    by (metis power2_eq_square sum_power2_gt_zero_iff)
  have sq: "(sqrt q)\<^sup>2 = q" using qpos by simp
  have x: "(vx / sqrt q * 5)\<^sup>2 = 25 * (vx * vx) / q"
    using qpos by (simp add: power_mult_distrib power_divide power2_eq_square)
  have y: "(vy / sqrt q * 5)\<^sup>2 = 25 * (vy * vy) / q"
    using qpos by (simp add: power_mult_distrib power_divide power2_eq_square)
  have "(vx / sqrt q * 5)\<^sup>2 + (vy / sqrt q * 5)\<^sup>2 = (25 * (vx * vx) + 25 * (vy * vy)) / q"
    unfolding x y by (rule add_divide_distrib[symmetric])
  also have "\<dots> = 25 * q / q" unfolding q_def distrib_left ..
  also have "\<dots> = 25" using qpos by simp
  finally show ?thesis by (simp add: q_def)
qed

lemma perturbation_small: "\<bar>real (v mod 100) / 500 - 0.1\<bar> \<le> 1 / 10"
proof -
  have "v mod 100 < 100" by simp
  then have "real (v mod 100) < 100" by (metis of_nat_less_iff of_nat_numeral)
  moreover have "0 \<le> real (v mod 100)" by simp
  ultimately show ?thesis unfolding abs_le_iff by auto
qed

lemma speed_component_bounds:
  fixes vx vy :: real
  assumes "vx\<^sup>2 + vy\<^sup>2 = 25"
  shows "\<bar>vx\<bar> \<le> 5" "\<bar>vy\<bar> \<le> 5"
proof -
  have "vx\<^sup>2 \<le> 25" using assms zero_le_power2[of vy] by linarith
  then have "vx\<^sup>2 \<le> 5\<^sup>2" by simp
  then show "\<bar>vx\<bar> \<le> 5" by (metis abs_le_square_iff abs_numeral)
  have "vy\<^sup>2 \<le> 25" using assms zero_le_power2[of vx] by linarith
  then have "vy\<^sup>2 \<le> 5\<^sup>2" by simp
  then show "\<bar>vy\<bar> \<le> 5" by (metis abs_le_square_iff abs_numeral)
qed

lemma bounce_speed:
  assumes "(ball_dx b)\<^sup>2 + (ball_dy b)\<^sup>2 = 25"
  shows "(ball_dx (fst (bounce c b g)))\<^sup>2 + (ball_dy (fst (bounce c b g)))\<^sup>2 = 25"
proof -
  define u where "u = real (g 0 mod 100) / 500 - 0.1"
  have u: "\<bar>u\<bar> \<le> 1 / 10" unfolding u_def by (rule perturbation_small)
  have nz: "ball_dx b \<noteq> 0 \<or> ball_dy b \<noteq> 0" using assms by auto
  have nz1: "ball_dx b + u \<noteq> 0 \<or> - ball_dy b \<noteq> 0"
  proof (rule ccontr)
    assume "\<not> ?thesis"
    then have "ball_dy b = 0" "ball_dx b = - u" by auto
    with assms have "u\<^sup>2 = 5\<^sup>2" by simp
    then have "\<bar>u\<bar> = 5" by (metis abs_numeral power2_eq_iff_nonneg abs_ge_zero power2_abs zero_le_numeral)
    with u show False by simp
  qed
  have nz2: "- ball_dx b \<noteq> 0 \<or> ball_dy b + u \<noteq> 0"
  proof (rule ccontr)
    assume "\<not> ?thesis"
    then have "ball_dx b = 0" "ball_dy b = - u" by auto
    with assms have "u\<^sup>2 = 5\<^sup>2" by simp
    then have "\<bar>u\<bar> = 5" by (metis abs_numeral power2_eq_iff_nonneg abs_ge_zero power2_abs zero_le_numeral)
    with u show False by simp
  qed
  show ?thesis
    using normalise_speed[OF nz] normalise_speed[OF nz1] normalise_speed[OF nz2]
    by (simp add: bounce_def static_cast_int_def Let_def rand_def BALL_SPEED_def u_def
        split: prod.split)
qed

lemma block_collisions_rects:
  "map block_rect (fst (block_collisions bs b sc g)) = map block_rect bs"
  by (induction bs) (auto simp: block_rect_def split: prod.splits)

lemma block_collisions_ball:
  "fst (snd (block_collisions bs b sc g)) = b \<or>
   (\<exists>blk\<in>set bs. block_active blk \<and> block_hit b blk \<and>
      fst (snd (block_collisions bs b sc g)) = fst (bounce (collision_side b blk) b g))"
proof (cases "\<exists>blk\<in>set bs. block_active blk \<and> block_hit b blk")
  case True
  from block_collisions_hit[OF this, of sc g] show ?thesis by auto
next
  case False
  then show ?thesis using block_collisions_miss[of bs b sc g] by auto
qed

lemma block_collisions_ball_pos [simp]:
  "ball_x (fst (snd (block_collisions bs b sc g))) = ball_x b"
  "ball_y (fst (snd (block_collisions bs b sc g))) = ball_y b"
  "ball_radius (fst (snd (block_collisions bs b sc g))) = ball_radius b"
  using block_collisions_ball[of bs b sc g] by auto

lemma block_collisions_speed:
  "speed_ok b \<Longrightarrow> speed_ok (fst (snd (block_collisions bs b sc g)))"
  using block_collisions_ball[of bs b sc g] by (auto simp: speed_ok_def bounce_speed)

text \<open>A block of the grid is not hit by a ball whose centre is far enough.\<close>

lemma not_hit_far:
  assumes "10 \<le> \<bar>ball_x b - closestX b blk\<bar> \<or> 10 \<le> \<bar>ball_y b - closestY b blk\<bar>"
    and "ball_radius b = 10"
  shows "\<not> block_hit b blk"
proof -
  define ex where "ex = ball_x b - closestX b blk"
  define ey where "ey = ball_y b - closestY b blk"
  have "100 \<le> ex * ex + ey * ey"
  proof -
    have "10\<^sup>2 \<le> ex\<^sup>2 \<or> 10\<^sup>2 \<le> ey\<^sup>2"
      using assms(1) unfolding ex_def ey_def
      by (metis abs_le_square_iff abs_numeral)
    then have "100 \<le> ex\<^sup>2 \<or> 100 \<le> ey\<^sup>2" by simp
    then have "100 \<le> ex\<^sup>2 + ey\<^sup>2"
      using zero_le_power2[of ex] zero_le_power2[of ey] by arith
    then show ?thesis by (simp add: power2_eq_square)
  qed
  then show ?thesis by (simp add: block_hit_def Let_def assms(2) ex_def ey_def)
qed

lemma grid_block_bounds:
  assumes "block_rect blk \<in> set grid_rects"
  shows "20 \<le> block_x blk" "block_x blk \<le> 700" "50 \<le> block_y blk" "block_y blk \<le> 190"
    "block_width blk = 80" "block_height blk = 30"
proof -
  from grid_rects_D[OF assms] obtain row col where
    rc: "0 \<le> row" "row \<le> 4" "0 \<le> col" "col \<le> 8" "block_rect blk = grid_rect row col"
    by blast
  then have x: "block_x blk = of_int (20 + col * 85)" and y: "block_y blk = of_int (50 + row * 35)"
    and "block_width blk = 80" "block_height blk = 30"
    by (simp_all add: block_rect_def grid_rect_def)
  then show "block_width blk = 80" "block_height blk = 30" by simp_all
  show "20 \<le> block_x blk" "block_x blk \<le> 700" using rc unfolding x by simp_all
  show "50 \<le> block_y blk" "block_y blk \<le> 190" using rc unfolding y by simp_all
qed

lemma grid_not_hit:
  assumes g: "block_rect blk \<in> set grid_rects" and r: "ball_radius b = 10"
    and far: "ball_x b \<le> 10 \<or> 790 \<le> ball_x b \<or> ball_y b \<le> 40 \<or> 230 \<le> ball_y b"
  shows "\<not> block_hit b blk"
proof (rule not_hit_far[OF _ r])
  note gb = grid_block_bounds[OF g]
  from far gb show "10 \<le> \<bar>ball_x b - closestX b blk\<bar> \<or> 10 \<le> \<bar>ball_y b - closestY b blk\<bar>"
    by (auto simp: closestX_def closestY_def max_def min_def)
qed

lemma standard_grid:
  "standard s \<Longrightarrow> blk \<in> set (blocks s) \<Longrightarrow> block_rect blk \<in> set grid_rects"
  by (metis standard_def image_eqI set_map)

subsection \<open>What every reachable state satisfies\<close>

lemma initial_velocity_speed: "(BALL_SPEED * cos (pi / 4))\<^sup>2 + (- BALL_SPEED * sin (pi / 4))\<^sup>2 = 25"
  by (simp add: BALL_SPEED_def power_mult_distrib cos_45 sin_45 power_divide)

lemma Ball_new_speed: "speed_ok (Ball_new x y r)"
  using initial_velocity_speed by (simp add: speed_ok_def Ball_new_def Let_def)

lemma standard_resetGame: "standard (resetGame s)"
  by (simp add: standard_def resetGame_ball resetGame_paddle resetGame_blocks init_blocks_rects
      Ball_new_def Paddle_new_def consts_defs Let_def)

lemma game_inv_resetGame: "game_inv (resetGame s)"
  using Ball_new_speed[of 400 550 10] resetGame_flags[of s]
  by (simp add: game_inv_def standard_resetGame resetGame_ball x_bounded_def y_bounded_def)
     (simp add: Ball_new_def Let_def)

lemma game_inv_new_game: "game_inv (new_game g)"
  by (simp add: new_game_def game_inv_resetGame)

lemma game_inv_start: "game_inv s \<Longrightarrow> game_inv (start s)"
  by (simp add: game_inv_def start_def standard_def y_bounded_def)

lemma game_inv_movePaddle: 
  assumes "game_inv s" shows "game_inv (movePaddle v s)"
proof -
  have w: "paddle_width (paddle s) = PADDLE_WIDTH" using assms by (simp add: game_inv_def standard_def)
  show ?thesis
    using assms
    by (auto simp: game_inv_def standard_def movePaddle_def Let_def Paddle_move_clamp[OF w]
        speed_ok_def x_bounded_def y_bounded_def)
qed

lemma bottom_check_inv:
  assumes st: "standard s" and sp: "speed_ok (ball s)" and xb: "x_bounded (ball s)"
    and y: "ball_y (ball s) \<le> 615"
  shows "game_inv (bottom_check s)"
proof (cases "ball_y (ball s) - of_int (ball_radius (ball s)) > of_int WINDOW_HEIGHT")
  case False
  then have "ball_y (ball s) \<le> 610" using st by (simp add: standard_def consts_defs)
  with False assms show ?thesis
    by (simp add: bottom_check_def game_inv_def y_bounded_def)
next
  case True
  show ?thesis
  proof (cases "lives s - 1 \<le> 0")
    case True
    with \<open>ball_y (ball s) - of_int (ball_radius (ball s)) > of_int WINDOW_HEIGHT\<close> assms
    show ?thesis
      by (simp add: bottom_check_def game_inv_def y_bounded_def standard_def Let_def)
  next
    case False
    with \<open>ball_y (ball s) - of_int (ball_radius (ball s)) > of_int WINDOW_HEIGHT\<close> assms
      initial_velocity_speed
    show ?thesis
      by (simp add: bottom_check_def game_inv_def y_bounded_def standard_def Let_def
          speed_ok_def x_bounded_def consts_defs)
  qed
qed

lemma victory_check_inv: "game_inv s \<Longrightarrow> game_inv (victory_check s)"
  by (simp add: victory_check_def game_inv_def standard_def y_bounded_def)

lemma update_running:
  assumes "gameRunning s" "\<not> gameOver s"
  shows "update s =
     victory_check (bottom_check
       (s\<lparr>ball := fst (snd (block_collisions (blocks s)
                 (paddle_collision (wall_collision (Ball_move (ball s))) (paddle s)) (score s) (rand_seq s))),
          blocks := fst (block_collisions (blocks s)
                 (paddle_collision (wall_collision (Ball_move (ball s))) (paddle s)) (score s) (rand_seq s)),
          score := fst (snd (snd (block_collisions (blocks s)
                 (paddle_collision (wall_collision (Ball_move (ball s))) (paddle s)) (score s) (rand_seq s)))),
          rand_seq := snd (snd (snd (block_collisions (blocks s)
                 (paddle_collision (wall_collision (Ball_move (ball s))) (paddle s)) (score s) (rand_seq s))))\<rparr>))"
  using assms by (simp add: update_def Let_def split: prod.split)

lemma frame_x_bounded:
  assumes st: "standard s" and sp: "speed_ok (ball s)" and xb: "x_bounded (ball s)"
    and b3: "b3 = paddle_collision (wall_collision (Ball_move (ball s))) (paddle s)"
    and b4: "b4 = fst (snd (block_collisions (blocks s) b3 sc g))"
  shows "x_bounded b4"
proof -
  define x0 where "x0 = ball_x (ball s)"
  define dx0 where "dx0 = ball_dx (ball s)"
  define b2 where "b2 = wall_collision (Ball_move (ball s))"
  have r: "ball_radius (ball s) = 10" and pw: "paddle_width (paddle s) = 100"
    and px: "50 \<le> paddle_x (paddle s)" "paddle_x (paddle s) \<le> 750"
    using st by (simp_all add: standard_def consts_defs)
  have d0: "\<bar>dx0\<bar> \<le> 5"
    using sp speed_component_bounds(1) by (simp add: speed_ok_def dx0_def)
  have x3: "ball_x b3 = x0 + dx0" and r3: "ball_radius b3 = 10"
    by (simp_all add: b3 x0_def dx0_def r)
  have x4: "ball_x b4 = x0 + dx0" by (simp add: b4 x3)
  have sp3: "speed_ok b3"
    using sp by (simp add: speed_ok_def b3 paddle_collision_speed wall_collision_speed)
  have d3: "\<bar>ball_dx b3\<bar> \<le> 5"
    using sp3 speed_component_bounds(1) by (simp add: speed_ok_def)
  have lo: "- 5 \<le> x0 + dx0" and hi: "x0 + dx0 \<le> 805"
    using xb d0 by (auto simp: x_bounded_def x0_def dx0_def abs_le_iff)
  have same: "b4 = b3" if "ball_x b3 \<le> 10 \<or> 790 \<le> ball_x b3"
  proof -
    have "\<not> block_hit b3 blk" if "blk \<in> set (blocks s)" for blk
      using grid_not_hit[OF standard_grid[OF st that] r3] \<open>ball_x b3 \<le> 10 \<or> 790 \<le> ball_x b3\<close>
      by blast
    then show ?thesis using block_collisions_ball[of "blocks s" b3 sc g] by (auto simp: b4)
  qed
  have dx3: "ball_dx b3 = - dx0 \<or> (paddle_hit b2 (paddle s) \<and> 0 \<le> x0 + dx0 \<and> x0 + dx0 \<le> 800)"
    if "x0 + dx0 \<le> 10 \<or> 790 \<le> x0 + dx0"
  proof (cases "paddle_hit b2 (paddle s)")
    case True
    then show ?thesis using px pw by (simp add: paddle_hit_def b2_def x0_def dx0_def)
  next
    case False
    then have "ball_dx b3 = ball_dx b2" by (simp add: b3 b2_def paddle_collision_def)
    also have "\<dots> = - dx0" using that
      by (auto simp: b2_def wall_collision_dx r x0_def dx0_def WINDOW_WIDTH_def)
    finally show ?thesis by simp
  qed
  have right: "ball_x b4 + ball_dx b4 \<le> 805" if "790 \<le> ball_x b4" "0 < ball_dx b4"
  proof -
    from that(1) have far: "790 \<le> x0 + dx0" by (simp add: x4)
    then have e: "b4 = b3" using same by (simp add: x3)
    from dx3 far have "ball_dx b3 = - dx0 \<or> x0 + dx0 \<le> 800" by blast
    then show ?thesis
    proof
      assume "ball_dx b3 = - dx0"
      then show ?thesis using that(2) xb by (simp add: e x3 x_bounded_def x0_def)
    next
      assume "x0 + dx0 \<le> 800"
      then show ?thesis using d3 by (simp add: e x3 abs_le_iff)
    qed
  qed
  have left: "- 5 \<le> ball_x b4 + ball_dx b4" if "ball_x b4 \<le> 10" "ball_dx b4 < 0"
  proof -
    from that(1) have far: "x0 + dx0 \<le> 10" by (simp add: x4)
    then have e: "b4 = b3" using same by (simp add: x3)
    from dx3 far have "ball_dx b3 = - dx0 \<or> 0 \<le> x0 + dx0" by blast
    then show ?thesis
    proof
      assume "ball_dx b3 = - dx0"
      then show ?thesis using that(2) xb by (simp add: e x3 x_bounded_def x0_def)
    next
      assume "0 \<le> x0 + dx0"
      then show ?thesis using d3 by (simp add: e x3 abs_le_iff)
    qed
  qed
  show ?thesis
    unfolding x_bounded_def using lo hi right left by (simp add: x4)
qed

lemma game_inv_update:
  assumes inv: "game_inv s"
  shows "game_inv (update s)"
proof (cases "gameRunning s \<and> \<not> gameOver s")
  case False
  then show ?thesis using inv by (auto simp: update_def)
next
  case True
  define b3 where "b3 = paddle_collision (wall_collision (Ball_move (ball s))) (paddle s)"
  define res where "res = block_collisions (blocks s) b3 (score s) (rand_seq s)"
  define s1 where "s1 = s\<lparr>ball := fst (snd res), blocks := fst res,
                            score := fst (snd (snd res)), rand_seq := snd (snd (snd res))\<rparr>"
  have upd: "update s = victory_check (bottom_check s1)"
    using True update_running[of s] by (simp add: s1_def res_def b3_def)
  have st: "standard s" and sp: "speed_ok (ball s)" and xb: "x_bounded (ball s)"
    and y: "ball_y (ball s) \<le> 610"
    using inv True by (simp_all add: game_inv_def y_bounded_def)
  have st1: "standard s1"
    using st by (simp add: standard_def s1_def res_def b3_def block_collisions_rects)
  have sp3: "speed_ok b3"
    using sp by (simp add: speed_ok_def b3_def paddle_collision_speed wall_collision_speed)
  have sp1: "speed_ok (ball s1)"
    using block_collisions_speed[OF sp3] by (simp add: s1_def res_def)
  have xb1: "x_bounded (ball s1)"
    using frame_x_bounded[OF st sp xb b3_def refl] by (simp add: s1_def res_def)
  have "\<bar>ball_dy (ball s)\<bar> \<le> 5"
    using sp speed_component_bounds(2) by (simp add: speed_ok_def)
  then have y1: "ball_y (ball s1) \<le> 615"
    using y by (simp add: s1_def res_def b3_def abs_le_iff)
  show ?thesis
    unfolding upd by (intro victory_check_inv bottom_check_inv st1 sp1 xb1 y1)
qed

lemma game_inv_step: "game_inv s \<Longrightarrow> game_inv (step s e)"
  by (cases e)
     (simp_all add: game_inv_resetGame game_inv_movePaddle game_inv_start game_inv_update
        on_button_press_def)

lemma game_inv_run_from: "game_inv s \<Longrightarrow> game_inv (run s evs)"
  unfolding run_def by (induction evs arbitrary: s) (simp_all add: game_inv_step)

lemma game_inv_run: "game_inv (run (new_game g) evs)"
  by (rule game_inv_run_from[OF game_inv_new_game])

subsection \<open>Sequences of events\<close>

lemma run_Nil [simp]: "run s [] = s"
  by (simp add: run_def)

lemma run_Cons [simp]: "run s (e # evs) = run (step s e) evs"
  by (simp add: run_def)

lemma run_append: "run s (xs @ ys) = run (run s xs) ys"
  by (simp add: run_def)

lemma run_replicate_Suc: "run s (replicate (Suc n) e) = step (run s (replicate n e)) e"
proof -
  have "replicate (Suc n) e = replicate n e @ [e]" by (simp add: replicate_append_same)
  then have "run s (replicate (Suc n) e) = run s (replicate n e @ [e])" by (rule arg_cong)
  then show ?thesis unfolding run_append by simp
qed

subsection \<open>Frames in free flight\<close>

lemma paddle_miss:
  assumes "standard s" "ball_radius b = 10"
    and "ball_y b < 550 \<or> 50 < \<bar>ball_x b - paddle_x (paddle s)\<bar> \<or> 590 < ball_y b"
  shows "\<not> paddle_hit b (paddle s)"
  using assms by (auto simp: paddle_hit_def standard_def consts_defs)

lemma update_free:
  assumes run: "gameRunning s" "\<not> gameOver s" and st: "standard s"
    and act: "\<not> allBlocksDestroyed (blocks s)"
    and free: "free_pos (paddle_x (paddle s)) (ball_x (ball s) + ball_dx (ball s))
                  (ball_y (ball s) + ball_dy (ball s))"
  shows "update s = s\<lparr>ball := Ball_move (ball s)\<rparr>"
proof -
  define b1 where "b1 = Ball_move (ball s)"
  have r: "ball_radius (ball s) = 10" using st by (simp add: standard_def consts_defs)
  have r1: "ball_radius b1 = 10" by (simp add: b1_def r)
  have f: "10 < ball_x b1" "ball_x b1 < 790" "230 \<le> ball_y b1" "ball_y b1 \<le> 610"
    "ball_y b1 < 550 \<or> 50 < \<bar>ball_x b1 - paddle_x (paddle s)\<bar> \<or> 590 < ball_y b1"
    using free by (simp_all add: free_pos_def b1_def)
  have w: "wall_collision b1 = b1"
    using f by (simp add: wall_collision_def Let_def r1 WINDOW_WIDTH_def)
  have p: "paddle_collision b1 (paddle s) = b1"
    using paddle_miss[OF st r1 f(5)] by (simp add: paddle_collision_def)
  have "\<not> block_hit b1 blk" if "blk \<in> set (blocks s)" for blk
    using grid_not_hit[OF standard_grid[OF st that] r1] f(3) by blast
  then have bc: "block_collisions (blocks s) b1 (score s) (rand_seq s) = (blocks s, b1, score s, rand_seq s)"
    by (intro block_collisions_miss) blast
  have "update s = victory_check (bottom_check (s\<lparr>ball := b1\<rparr>))"
    using run by (simp add: update_def Let_def b1_def[symmetric] w p bc)
  also have "\<dots> = s\<lparr>ball := b1\<rparr>"
    using f(4) act by (simp add: bottom_check_def victory_check_def r1 WINDOW_HEIGHT_def)
  finally show ?thesis by (simp add: b1_def)
qed

lemma fly_0 [simp]: "fly 0 b = b"
  by (simp add: fly_def)

lemma fly_Suc: "Ball_move (fly n b) = fly (Suc n) b"
  by (simp add: fly_def Ball_move_def algebra_simps)

lemma fly_simps [simp]:
  "ball_x (fly n b) = ball_x b + of_nat n * ball_dx b"
  "ball_y (fly n b) = ball_y b + of_nat n * ball_dy b"
  "ball_dx (fly n b) = ball_dx b"
  "ball_dy (fly n b) = ball_dy b"
  "ball_radius (fly n b) = ball_radius b"
  by (simp_all add: fly_def)

lemma free_flight:
  assumes run: "gameRunning s" "\<not> gameOver s" and st: "standard s"
    and act: "\<not> allBlocksDestroyed (blocks s)"
    and free: "\<And>k. 1 \<le> k \<Longrightarrow> k \<le> n \<Longrightarrow>
        free_pos (paddle_x (paddle s)) (ball_x (ball s) + of_nat k * ball_dx (ball s))
                  (ball_y (ball s) + of_nat k * ball_dy (ball s))"
  shows "run s (replicate n Update) = s\<lparr>ball := fly n (ball s)\<rparr>"
  using free
proof (induction n)
  case 0
  then show ?case by simp
next
  case (Suc n)
  define s' where "s' = s\<lparr>ball := fly n (ball s)\<rparr>"
  have ih: "run s (replicate n Update) = s'"
    unfolding s'_def by (rule Suc.IH) (simp add: Suc.prems)
  have st': "standard s'" using st by (simp add: s'_def standard_def)
  have "free_pos (paddle_x (paddle s')) (ball_x (ball s') + ball_dx (ball s'))
                  (ball_y (ball s') + ball_dy (ball s'))"
    using Suc.prems[of "Suc n"] by (simp add: s'_def algebra_simps)
  then have "update s' = s'\<lparr>ball := Ball_move (ball s')\<rparr>"
    using run act st' by (intro update_free) (simp_all add: s'_def)
  then show ?case
    unfolding run_replicate_Suc ih by (simp add: s'_def fly_Suc)
qed

lemma active_not_destroyed:
  "list_all block_active bs \<Longrightarrow> bs \<noteq> [] \<Longrightarrow> \<not> allBlocksDestroyed bs"
  by (cases bs) (simp_all add: allBlocksDestroyed_def)

lemma init_blocks_length: "length (fst (init_blocks g)) = 45"
  using init_blocks_rects[of g] length_grid_rects by (metis length_map)

lemma init_blocks_not_destroyed: "\<not> allBlocksDestroyed (fst (init_blocks g))"
  using init_blocks_length[of g] by (intro active_not_destroyed init_blocks_active) auto

lemma new_game_fields:
  "ball (new_game g) = Ball_new 400 550 10"
  "paddle (new_game g) = Paddle_new 400 570 100 20"
  "blocks (new_game g) = fst (init_blocks g)"
  "rand_seq (new_game g) = snd (init_blocks g)"
  "\<not> gameRunning (new_game g)" "\<not> gameOver (new_game g)"
  "score (new_game g) = 0" "lives (new_game g) = 3"
  by (simp_all add: new_game_def resetGame_ball resetGame_paddle resetGame_blocks
      resetGame_rand_seq resetGame_flags resetGame_score_lives)

lemma standard_new_game: "standard (new_game g)"
  by (simp add: new_game_def standard_resetGame)

lemma update_exit:
  assumes run: "gameRunning s" "\<not> gameOver s" and st: "standard s"
    and act: "\<not> allBlocksDestroyed (blocks s)"
    and x: "10 < ball_x (ball s) + ball_dx (ball s)" "ball_x (ball s) + ball_dx (ball s) < 790"
    and y: "610 < ball_y (ball s) + ball_dy (ball s)"
  shows "update s =
     (if lives s - 1 \<le> 0
      then s\<lparr>ball := Ball_move (ball s), lives := lives s - 1, gameOver := True\<rparr>
      else s\<lparr>ball := (Ball_move (ball s))\<lparr>ball_x := paddle_x (paddle s), ball_y := 550,
                   ball_dx := BALL_SPEED * cos (pi / 4), ball_dy := - BALL_SPEED * sin (pi / 4)\<rparr>,
             lives := lives s - 1, gameRunning := False\<rparr>)"
proof -
  define b1 where "b1 = Ball_move (ball s)"
  have r: "ball_radius (ball s) = 10" using st by (simp add: standard_def consts_defs)
  have r1: "ball_radius b1 = 10" by (simp add: b1_def r)
  have f: "10 < ball_x b1" "ball_x b1 < 790" "610 < ball_y b1"
    using x y by (simp_all add: b1_def)
  have w: "wall_collision b1 = b1"
    using f by (simp add: wall_collision_def Let_def r1 WINDOW_WIDTH_def)
  have p: "paddle_collision b1 (paddle s) = b1"
    using paddle_miss[OF st r1] f(3) by (simp add: paddle_collision_def)
  have "\<not> block_hit b1 blk" if "blk \<in> set (blocks s)" for blk
    using grid_not_hit[OF standard_grid[OF st that] r1] f(3) by simp
  then have bc: "block_collisions (blocks s) b1 (score s) (rand_seq s) = (blocks s, b1, score s, rand_seq s)"
    by (intro block_collisions_miss) blast
  have "update s = victory_check (bottom_check (s\<lparr>ball := b1\<rparr>))"
    using run by (simp add: update_def Let_def b1_def[symmetric] w p bc)
  then show ?thesis
    using f(3) act
    by (simp add: bottom_check_def victory_check_def r WINDOW_HEIGHT_def Let_def b1_def)
qed

lemma scenario_S5_facts:
  "gameRunning (scenario_S5 g)" "\<not> gameOver (scenario_S5 g)" "standard (scenario_S5 g)"
  "\<not> allBlocksDestroyed (blocks (scenario_S5 g))" "lives (scenario_S5 g) = 3"
  "paddle_x (paddle (scenario_S5 g)) = 100"
  "ball (scenario_S5 g) = \<lparr>ball_x = 400, ball_y = 590, ball_dx = 0, ball_dy = 5, ball_radius = 10\<rparr>"
  using standard_new_game[of g]
  by (simp_all add: scenario_S5_def new_game_fields init_blocks_not_destroyed standard_def
      BALL_RADIUS_def)

lemma scenario_S5_first_frame:
  "update (scenario_S5 g) =
     (scenario_S5 g)\<lparr>ball := \<lparr>ball_x = 400, ball_y = 595, ball_dx = 0, ball_dy = 5, ball_radius = 10\<rparr>\<rparr>"
proof -
  have "update (scenario_S5 g) = (scenario_S5 g)\<lparr>ball := Ball_move (ball (scenario_S5 g))\<rparr>"
    by (intro update_free scenario_S5_facts) (simp add: scenario_S5_facts free_pos_def)
  then show ?thesis by (simp add: scenario_S5_facts Ball_move_def)
qed

lemma scenario_S5_four_frames:
  "run (scenario_S5 g) (replicate 4 Update) =
     (scenario_S5 g)\<lparr>ball := \<lparr>ball_x = 400, ball_y = 610, ball_dx = 0, ball_dy = 5, ball_radius = 10\<rparr>\<rparr>"
proof -
  have "run (scenario_S5 g) (replicate 4 Update) = (scenario_S5 g)\<lparr>ball := fly 4 (ball (scenario_S5 g))\<rparr>"
  proof (intro free_flight scenario_S5_facts)
    fix k :: nat assume "1 \<le> k" "k \<le> 4"
    then have "1 \<le> real k" "real k \<le> 4" by simp_all
    then show "free_pos (paddle_x (paddle (scenario_S5 g)))
          (ball_x (ball (scenario_S5 g)) + real k * ball_dx (ball (scenario_S5 g)))
          (ball_y (ball (scenario_S5 g)) + real k * ball_dy (ball (scenario_S5 g)))"
      by (simp add: scenario_S5_facts free_pos_def)
  qed
  then show ?thesis by (simp add: scenario_S5_facts fly_def)
qed

lemma scenario_S5_five_frames:
  "run (scenario_S5 g) (replicate 5 Update) =
     (scenario_S5 g)\<lparr>ball := \<lparr>ball_x = 100, ball_y = 550, ball_dx = BALL_SPEED * cos (pi / 4),
                                 ball_dy = - BALL_SPEED * sin (pi / 4), ball_radius = 10\<rparr>,
                     lives := 2, gameRunning := False\<rparr>"
proof -
  define s4 where "s4 = run (scenario_S5 g) (replicate 4 Update)"
  have s4: "s4 = (scenario_S5 g)\<lparr>ball := \<lparr>ball_x = 400, ball_y = 610, ball_dx = 0, ball_dy = 5, ball_radius = 10\<rparr>\<rparr>"
    unfolding s4_def by (rule scenario_S5_four_frames)
  have "run (scenario_S5 g) (replicate 5 Update) = update s4"
    using run_replicate_Suc[of "scenario_S5 g" 4 Update] by (simp add: s4_def)
  also have "\<dots> = (if lives s4 - 1 \<le> 0
      then s4\<lparr>ball := Ball_move (ball s4), lives := lives s4 - 1, gameOver := True\<rparr>
      else s4\<lparr>ball := (Ball_move (ball s4))\<lparr>ball_x := paddle_x (paddle s4), ball_y := 550,
                   ball_dx := BALL_SPEED * cos (pi / 4), ball_dy := - BALL_SPEED * sin (pi / 4)\<rparr>,
             lives := lives s4 - 1, gameRunning := False\<rparr>)"
    using scenario_S5_facts[of g]
    by (intro update_exit) (simp_all add: s4 standard_def)
  also have "\<dots> = (scenario_S5 g)\<lparr>ball := \<lparr>ball_x = 100, ball_y = 550, ball_dx = BALL_SPEED * cos (pi / 4),
                                 ball_dy = - BALL_SPEED * sin (pi / 4), ball_radius = 10\<rparr>,
                     lives := 2, gameRunning := False\<rparr>"
    by (simp add: s4 scenario_S5_facts Ball_move_def)
  finally show ?thesis .
qed

subsection \<open>The diagonal velocity of a new ball\<close>

lemma diag_bounds: "3535 / 1000 < diag" "diag < 3536 / 1000"
proof -
  have "(1414 / 1000)\<^sup>2 < (2::real)" by (simp add: power2_eq_square)
  then have "1414 / 1000 < sqrt 2" by (rule real_less_rsqrt)
  then show "3535 / 1000 < diag" by (simp add: diag_def)
  have "(2::real) < (14144 / 10000)\<^sup>2" by (simp add: power2_eq_square)
  then have "sqrt 2 < 14144 / 10000" by (intro real_less_lsqrt) simp_all
  then show "diag < 3536 / 1000" by (simp add: diag_def)
qed

lemma diag_square: "diag * diag = 25 / 2"
  by (simp add: diag_def)

lemma initial_velocity_diag:
  "BALL_SPEED * cos (pi / 4) = diag" "BALL_SPEED * sin (pi / 4) = diag"
  by (simp_all add: diag_def BALL_SPEED_def cos_45 sin_45)

lemma Ball_new_diag:
  "Ball_new x y r = \<lparr>ball_x = x, ball_y = y, ball_dx = diag, ball_dy = - diag, ball_radius = r\<rparr>"
  by (simp add: Ball_new_def Let_def initial_velocity_diag)

lemma steps_diag:
  assumes "1 \<le> k" "k \<le> n"
  shows "diag \<le> real k * diag" "real k * diag \<le> real n * diag"
proof -
  have d: "0 \<le> diag" using diag_bounds(1) by simp
  have "1 * diag \<le> real k * diag" using assms(1) d by (intro mult_right_mono) simp_all
  then show "diag \<le> real k * diag" by simp
  show "real k * diag \<le> real n * diag" using assms(2) d by (intro mult_right_mono) simp_all
qed

subsection \<open>A frame at the right wall\<close>

lemma update_wall_right:
  assumes run: "gameRunning s" "\<not> gameOver s" and st: "standard s"
    and act: "\<not> allBlocksDestroyed (blocks s)"
    and x: "790 \<le> ball_x (ball s) + ball_dx (ball s)"
    and y: "10 < ball_y (ball s) + ball_dy (ball s)" "ball_y (ball s) + ball_dy (ball s) < 550"
  shows "update s = s\<lparr>ball := (Ball_move (ball s))\<lparr>ball_dx := - ball_dx (ball s)\<rparr>\<rparr>"
proof -
  define b1 where "b1 = Ball_move (ball s)"
  define b2 where "b2 = b1\<lparr>ball_dx := - ball_dx (ball s)\<rparr>"
  have r: "ball_radius (ball s) = 10" using st by (simp add: standard_def consts_defs)
  have r1: "ball_radius b1 = 10" by (simp add: b1_def r)
  have r2: "ball_radius b2 = 10" by (simp add: b2_def r1)
  have f: "790 \<le> ball_x b1" "10 < ball_y b1" "ball_y b1 < 550"
    using x y by (simp_all add: b1_def)
  have f2: "790 \<le> ball_x b2" "ball_y b2 < 550" using f by (simp_all add: b2_def)
  have dx1: "ball_dx b1 = ball_dx (ball s)" by (simp add: b1_def)
  have w: "wall_collision b1 = b2"
    using f by (simp add: wall_collision_def Let_def r1 WINDOW_WIDTH_def b2_def dx1)
  have p: "paddle_collision b2 (paddle s) = b2"
    using paddle_miss[OF st r2] f2 by (simp add: paddle_collision_def)
  have "\<not> block_hit b2 blk" if "blk \<in> set (blocks s)" for blk
    using grid_not_hit[OF standard_grid[OF st that] r2] f2 by simp
  then have bc: "block_collisions (blocks s) b2 (score s) (rand_seq s) = (blocks s, b2, score s, rand_seq s)"
    by (intro block_collisions_miss) blast
  have "update s = victory_check (bottom_check (s\<lparr>ball := b2\<rparr>))"
    using run by (simp add: update_def Let_def b1_def[symmetric] w p bc)
  also have "\<dots> = s\<lparr>ball := b2\<rparr>"
    using f2 act by (simp add: bottom_check_def victory_check_def r2 WINDOW_HEIGHT_def)
  finally show ?thesis by (simp add: b2_def b1_def)
qed

subsection \<open>Free flight through a box\<close>

lemma segment_between:
  fixes x d :: real
  assumes "1 \<le> k" "k \<le> n"
  shows "min (x + d) (x + real n * d) \<le> x + real k * d"
    and "x + real k * d \<le> max (x + d) (x + real n * d)"
proof -
  have k: "1 \<le> real k" "real k \<le> real n" using assms by simp_all
  show "min (x + d) (x + real n * d) \<le> x + real k * d"
  proof (cases "0 \<le> d")
    case True
    then have "1 * d \<le> real k * d" using k(1) by (intro mult_right_mono)
    then show ?thesis by simp
  next
    case False
    then have "real k * d \<ge> real n * d" using k(2) by (intro mult_right_mono_neg) simp_all
    then show ?thesis by simp
  qed
  show "x + real k * d \<le> max (x + d) (x + real n * d)"
  proof (cases "0 \<le> d")
    case True
    then have "real k * d \<le> real n * d" using k(2) by (intro mult_right_mono)
    then show ?thesis by simp
  next
    case False
    then have "real k * d \<le> 1 * d" using k(1) by (intro mult_right_mono_neg) simp_all
    then show ?thesis by simp
  qed
qed

lemma in_box_segment:
  assumes k: "1 \<le> k" "k \<le> n"
    and a: "in_box xl xh yl yh (x + dx) (y + dy)"
    and b: "in_box xl xh yl yh (x + real n * dx) (y + real n * dy)"
  shows "in_box xl xh yl yh (x + real k * dx) (y + real k * dy)"
  using segment_between[OF k, of x dx] segment_between[OF k, of y dy] a b
  unfolding in_box_def by linarith

lemma free_pos_box:
  assumes "in_box xl xh yl yh x y"
    and "10 \<le> xl" "xh \<le> 790" "230 \<le> yl" "yh \<le> 610"
    and "yh < 550 \<or> px + 50 \<le> xl \<or> xh \<le> px - 50 \<or> 590 < yl"
  shows "free_pos px x y"
  using assms unfolding in_box_def free_pos_def by (auto simp: abs_if)

lemma free_flight_box:
  assumes run: "gameRunning s" "\<not> gameOver s" and st: "standard s"
    and act: "\<not> allBlocksDestroyed (blocks s)"
    and box: "10 \<le> xl" "xh \<le> 790" "230 \<le> yl" "yh \<le> 610"
      "yh < 550 \<or> paddle_x (paddle s) + 50 \<le> xl \<or> xh \<le> paddle_x (paddle s) - 50 \<or> 590 < yl"
    and first: "in_box xl xh yl yh (ball_x (ball s) + ball_dx (ball s)) (ball_y (ball s) + ball_dy (ball s))"
    and last: "in_box xl xh yl yh (ball_x (ball s) + real n * ball_dx (ball s))
                 (ball_y (ball s) + real n * ball_dy (ball s))"
  shows "run s (replicate n Update) = s\<lparr>ball := fly n (ball s)\<rparr>"
proof (intro free_flight run st act)
  fix k :: nat assume k: "1 \<le> k" "k \<le> n"
  show "free_pos (paddle_x (paddle s)) (ball_x (ball s) + real k * ball_dx (ball s))
          (ball_y (ball s) + real k * ball_dy (ball s))"
    by (rule free_pos_box[OF in_box_segment[OF k first last] box])
qed

subsection \<open>Twelve frames towards the right wall\<close>



subsection \<open>A frame that hits a block\<close>

lemma hit_is_near:
  assumes "block_hit b blk" "ball_radius b = 10"
  shows "\<bar>ball_x b - closestX b blk\<bar> < 10" "\<bar>ball_y b - closestY b blk\<bar> < 10"
  using not_hit_far[OF _ assms(2), of blk] assms(1) by force+

lemma near_is_hit:
  assumes "ball_x b = closestX b blk" "\<bar>ball_y b - closestY b blk\<bar> < 10" "ball_radius b = 10"
  shows "block_hit b blk"
proof -
  define e where "e = ball_y b - closestY b blk"
  have "\<bar>e\<bar> * \<bar>e\<bar> < 10 * 10"
    using assms(2) unfolding e_def by (intro mult_strict_mono') simp_all
  then have "e * e < 100" by (simp add: abs_mult_self_eq)
  then show ?thesis using assms(1,3) by (simp add: block_hit_def Let_def e_def)
qed

text \<open>A ball just under the middle of the last block of the grid, the one of row 4 and
  column 8 at \<open>(700, 190)\<close>: that block is hit, on its bottom side, and no other.\<close>

lemma under_last_block:
  assumes r: "ball_radius b = 10"
    and x: "721 < ball_x b" "ball_x b < 722" and y: "228 < ball_y b" "ball_y b < 229"
  shows "block_rect blk = grid_rect 4 8 \<Longrightarrow> block_hit b blk"
    and "block_rect blk \<in> set grid_rects \<Longrightarrow> block_hit b blk \<Longrightarrow> collision_side b blk = 2"
proof -
  show "block_hit b blk" if "block_rect blk = grid_rect 4 8"
  proof (rule near_is_hit[OF _ _ r])
    from that have g: "block_x blk = 700" "block_y blk = 190" "block_width blk = 80" "block_height blk = 30"
      by (simp_all add: block_rect_def grid_rect_def)
    show "ball_x b = closestX b blk" using x by (simp add: closestX_def g)
    show "\<bar>ball_y b - closestY b blk\<bar> < 10" using y by (simp add: closestY_def g)
  qed
  show "collision_side b blk = 2" if g: "block_rect blk \<in> set grid_rects" and h: "block_hit b blk"
  proof -
    from grid_rects_D[OF g] obtain row col where
      rc: "0 \<le> row" "row \<le> 4" "0 \<le> col" "col \<le> 8" "block_rect blk = grid_rect row col"
      by blast
    then have f: "block_x blk = of_int (20 + col * 85)" "block_y blk = of_int (50 + row * 35)"
      "block_width blk = 80" "block_height blk = 30"
      by (simp_all add: block_rect_def grid_rect_def)
    note n = hit_is_near[OF h r]
    have "real_of_int (50 + row * 35) \<le> 190" using rc by simp
    then have cy: "closestY b blk = block_y blk + 30"
      using y by (simp add: closestY_def f)
    with n(2) y have "188 < real_of_int (50 + row * 35)" by (simp add: f)
    then have "188 < 50 + row * 35" by linarith
    with rc have row: "row = 4" by simp
    have "real_of_int (20 + col * 85) < 732"
      using n(1) x by (simp add: closestX_def f max_def min_def split: if_splits)
    moreover have "631 < real_of_int (20 + col * 85)"
      using n(1) x by (simp add: closestX_def f max_def min_def split: if_splits)
    ultimately have "20 + col * 85 < 732" "631 < 20 + col * 85" by linarith+
    with rc have col: "col = 8" by simp
    have g': "block_x blk = 700" "block_y blk = 190" using f by (simp_all add: row col)
    show ?thesis
      using x y by (simp add: collision_side_def closest_point_side_def closestX_def closestY_def
          g' f(3,4))
  qed
qed

lemma one_hit_not_destroyed:
  assumes "list_all block_active (pre @ blk # post)" "2 \<le> length (pre @ blk # post)"
  shows "\<not> allBlocksDestroyed (pre @ blk\<lparr>block_active := False\<rparr> # post)"
  using assms by (cases pre; cases post) (simp_all add: allBlocksDestroyed_def)

lemma update_hit:
  assumes run: "gameRunning s" "\<not> gameOver s" and st: "standard s"
    and x: "10 < ball_x (ball s) + ball_dx (ball s)" "ball_x (ball s) + ball_dx (ball s) < 790"
    and y: "10 < ball_y (ball s) + ball_dy (ball s)" "ball_y (ball s) + ball_dy (ball s) < 550"
    and hit: "\<exists>blk\<in>set (blocks s). block_hit (Ball_move (ball s)) blk"
    and side: "\<And>blk. blk \<in> set (blocks s) \<Longrightarrow> block_hit (Ball_move (ball s)) blk \<Longrightarrow>
                 collision_side (Ball_move (ball s)) blk = c"
    and all: "list_all block_active (blocks s)" "2 \<le> length (blocks s)"
  shows "\<exists>blks. update s = s\<lparr>ball := fst (bounce c (Ball_move (ball s)) (rand_seq s)),
                              blocks := blks, score := score s + 10,
                              rand_seq := snd (bounce c (Ball_move (ball s)) (rand_seq s))\<rparr>
                \<and> map block_rect blks = map block_rect (blocks s)
                \<and> \<not> allBlocksDestroyed blks"
proof -
  define b1 where "b1 = Ball_move (ball s)"
  have r: "ball_radius (ball s) = 10" using st by (simp add: standard_def consts_defs)
  have r1: "ball_radius b1 = 10" by (simp add: b1_def r)
  have f: "10 < ball_x b1" "ball_x b1 < 790" "10 < ball_y b1" "ball_y b1 < 550"
    using x y by (simp_all add: b1_def)
  have w: "wall_collision b1 = b1"
    using f by (simp add: wall_collision_def Let_def r1 WINDOW_WIDTH_def)
  have p: "paddle_collision b1 (paddle s) = b1"
    using paddle_miss[OF st r1] f(4) by (simp add: paddle_collision_def)
  have "\<exists>blk\<in>set (blocks s). block_active blk \<and> block_hit b1 blk"
    using hit all(1) by (auto simp: b1_def list_all_iff)
  from block_collisions_hit[OF this, of "score s" "rand_seq s"] obtain pre blk post where
    h: "blocks s = pre @ blk # post" "block_hit b1 blk"
       "block_collisions (blocks s) b1 (score s) (rand_seq s) =
          (pre @ blk\<lparr>block_active := False\<rparr> # post,
           fst (bounce (collision_side b1 blk) b1 (rand_seq s)), score s + 10,
           snd (bounce (collision_side b1 blk) b1 (rand_seq s)))"
    by blast
  define blks where "blks = pre @ blk\<lparr>block_active := False\<rparr> # post"
  have c: "collision_side b1 blk = c"
    using side[of blk] h(1,2) by (simp add: b1_def)
  have nd: "\<not> allBlocksDestroyed blks"
    unfolding blks_def using all by (intro one_hit_not_destroyed) (simp_all add: h(1))
  have rects: "map block_rect blks = map block_rect (blocks s)"
    by (simp add: blks_def h(1) block_rect_def)
  define s1 where "s1 = s\<lparr>ball := fst (bounce c b1 (rand_seq s)), blocks := blks,
                            score := score s + 10, rand_seq := snd (bounce c b1 (rand_seq s))\<rparr>"
  have "update s = victory_check (bottom_check s1)"
    using run by (simp add: update_def Let_def b1_def[symmetric] w p h(3) c s1_def blks_def)
  also have "\<dots> = s1"
    using f nd by (simp add: bottom_check_def victory_check_def s1_def r1 WINDOW_HEIGHT_def)
  finally show ?thesis using rects nd by (auto simp: s1_def b1_def)
qed

subsection \<open>The steady generator\<close>

lemma rand_steady: "rand steady_rand = (50, steady_rand)"
  by (simp add: rand_def steady_rand_def fun_eq_iff)

lemma Block_new_steady: "snd (Block_new x y w h steady_rand) = steady_rand"
  by (simp add: Block_new_def rand_steady)

lemma emplace_block_steady: "snd acc = steady_rand \<Longrightarrow> snd (emplace_block row col acc) = steady_rand"
  using Block_new_steady by (simp add: emplace_block_def Let_def split: prod.split) (metis snd_conv)

lemma emplace_cols_steady:
  "snd acc = steady_rand \<Longrightarrow> snd (foldl (\<lambda>a col. emplace_block row col a) acc cols) = steady_rand"
  by (induction cols arbitrary: acc) (simp_all add: emplace_block_steady)

lemma emplace_rows_steady:
  "snd acc = steady_rand \<Longrightarrow> snd (foldl (\<lambda>a row. emplace_row row a) acc rows) = steady_rand"
  by (induction rows arbitrary: acc) (simp_all add: emplace_row_def emplace_cols_steady)

lemma init_blocks_steady: "snd (init_blocks steady_rand) = steady_rand"
  by (simp add: init_blocks_def emplace_rows_steady)

lemma bounce_bottom_steady:
  assumes "ball_dx b = diag" "ball_dy b = - diag"
  shows "bounce 2 b steady_rand = (b\<lparr>ball_dx := diag, ball_dy := diag\<rparr>, steady_rand)"
proof -
  have "sqrt (2 * (diag * diag)) = sqrt (5\<^sup>2)" by (simp add: diag_square)
  then have s: "sqrt (2 * (diag * diag)) = 5" by simp
  show ?thesis
    by (simp add: bounce_def static_cast_int_def rand_steady Let_def assms s BALL_SPEED_def)
qed

subsection \<open>One ball, from the start to its loss\<close>

lemma frames_199:
  "replicate 199 Update =
     replicate 90 Update @ Update # replicate 19 Update @ Update # replicate 87 Update @ [Update]"
proof -
  have "replicate (90 + (1 + (19 + (1 + (87 + 1))))) Update =
     replicate 90 Update @ replicate 1 Update @ replicate 19 Update @ replicate 1 Update
       @ replicate 87 Update @ replicate 1 Update"
    unfolding replicate_add ..
  then show ?thesis by simp
qed

lemma one_ball_played:
  assumes rs: "rand_seq s0 = steady_rand"
  shows "lives (run (resetGame s0) one_ball) = lives s0 - 1"
    and "score (run (resetGame s0) one_ball) = score s0 + 10"
    and "rand_seq (run (resetGame s0) one_ball) = steady_rand"
    and "gameOver (run (resetGame s0) one_ball) \<longleftrightarrow> lives s0 \<le> 1"
    and "gameRunning (run (resetGame s0) one_ball) \<longleftrightarrow> lives s0 \<le> 1"
    and "\<not> allBlocksDestroyed (blocks (run (resetGame s0) one_ball))"
proof -
  define f0 where "f0 = start (resetGame s0)"
  have f0: "gameRunning f0" "\<not> gameOver f0" "standard f0" "\<not> allBlocksDestroyed (blocks f0)"
    "paddle_x (paddle f0) = 400"
    "ball f0 = \<lparr>ball_x = 400, ball_y = 550, ball_dx = diag, ball_dy = - diag, ball_radius = 10\<rparr>"
    "list_all block_active (blocks f0)" "length (blocks f0) = 45"
    "rand_seq f0 = steady_rand" "lives f0 = lives s0" "score f0 = score s0"
    using standard_resetGame[of s0]
    by (simp_all add: f0_def start_def resetGame_flags resetGame_ball resetGame_paddle
        resetGame_blocks resetGame_rand_seq resetGame_score_lives rs init_blocks_steady
        init_blocks_not_destroyed init_blocks_active init_blocks_length Ball_new_diag
        Paddle_new_def standard_def)
  text \<open>Ninety frames upward.\<close>
  define s90 where "s90 = f0\<lparr>ball := \<lparr>ball_x = 400 + 90 * diag, ball_y = 550 - 90 * diag,
                                  ball_dx = diag, ball_dy = - diag, ball_radius = 10\<rparr>\<rparr>"
  have "run f0 (replicate 90 Update) = f0\<lparr>ball := fly 90 (ball f0)\<rparr>"
    using diag_bounds
    by (intro free_flight_box[where xl = 10 and xh = 790 and yl = 230 and yh = 549] f0)
       (simp_all add: f0 in_box_def)
  then have r90: "run f0 (replicate 90 Update) = s90"
    by (simp add: s90_def f0 fly_def)
  have f90: "gameRunning s90" "\<not> gameOver s90" "standard s90"
    "list_all block_active (blocks s90)" "length (blocks s90) = 45"
    "rand_seq s90 = steady_rand" "lives s90 = lives s0" "score s90 = score s0"
    "paddle_x (paddle s90) = 400"
    using f0 by (simp_all add: s90_def standard_def)
  text \<open>The frame that hits the last block from below.\<close>
  define b91 where "b91 = \<lparr>ball_x = 400 + 91 * diag, ball_y = 550 - 91 * diag,
                            ball_dx = diag, ball_dy = - diag, ball_radius = 10\<rparr>"
  have m90: "Ball_move (ball s90) = b91"
    by (simp add: s90_def b91_def Ball_move_def)
  have p91: "ball_radius b91 = 10" "721 < ball_x b91" "ball_x b91 < 722" "228 < ball_y b91"
    "ball_y b91 < 229"
    using diag_bounds by (simp_all add: b91_def)
  have "grid_rect 4 8 \<in> set (map block_rect (blocks s90))"
    using f90(3) grid_rects_I[of 4 8] by (simp add: standard_def)
  then obtain last_blk where lb: "last_blk \<in> set (blocks s90)" "block_rect last_blk = grid_rect 4 8"
    by auto
  have hit: "\<exists>blk\<in>set (blocks s90). block_hit (Ball_move (ball s90)) blk"
    unfolding m90 using lb under_last_block(1)[OF p91] by blast
  have side: "collision_side (Ball_move (ball s90)) blk = 2"
    if "blk \<in> set (blocks s90)" "block_hit (Ball_move (ball s90)) blk" for blk
    using that under_last_block(2)[OF p91 standard_grid[OF f90(3) that(1)]] by (simp add: m90)
  have "\<exists>blks. update s90 = s90\<lparr>ball := fst (bounce 2 (Ball_move (ball s90)) (rand_seq s90)),
                              blocks := blks, score := score s90 + 10,
                              rand_seq := snd (bounce 2 (Ball_move (ball s90)) (rand_seq s90))\<rparr>
                \<and> map block_rect blks = map block_rect (blocks s90)
                \<and> \<not> allBlocksDestroyed blks"
    using diag_bounds
    by (intro update_hit f90 hit side) (simp_all add: s90_def f0)
  then obtain blks where
    u90: "update s90 = s90\<lparr>ball := fst (bounce 2 b91 steady_rand), blocks := blks,
                            score := score s0 + 10, rand_seq := snd (bounce 2 b91 steady_rand)\<rparr>"
    and blks: "map block_rect blks = map block_rect (blocks s90)" "\<not> allBlocksDestroyed blks"
    unfolding m90 f90 by blast
  define s91 where "s91 = s90\<lparr>ball := b91\<lparr>ball_dx := diag, ball_dy := diag\<rparr>, blocks := blks,
                              score := score s0 + 10\<rparr>"
  have r91: "update s90 = s91"
    unfolding u90 by (simp add: bounce_bottom_steady b91_def s91_def s90_def f0)
  have f91: "gameRunning s91" "\<not> gameOver s91" "standard s91" "\<not> allBlocksDestroyed (blocks s91)"
    "paddle_x (paddle s91) = 400"
    "ball s91 = \<lparr>ball_x = 400 + 91 * diag, ball_y = 550 - 91 * diag,
                  ball_dx = diag, ball_dy = diag, ball_radius = 10\<rparr>"
    "rand_seq s91 = steady_rand" "lives s91 = lives s0" "score s91 = score s0 + 10"
    using f90 blks by (simp_all add: s91_def standard_def b91_def) (simp_all add: s90_def)
  text \<open>Nineteen frames downward, then the right wall.\<close>
  define s110 where "s110 = s91\<lparr>ball := \<lparr>ball_x = 400 + 110 * diag, ball_y = 550 - 72 * diag,
                                  ball_dx = diag, ball_dy = diag, ball_radius = 10\<rparr>\<rparr>"
  have "run s91 (replicate 19 Update) = s91\<lparr>ball := fly 19 (ball s91)\<rparr>"
    using diag_bounds
    by (intro free_flight_box[where xl = 10 and xh = 790 and yl = 230 and yh = 549] f91)
       (simp_all add: f91 in_box_def)
  then have r110: "run s91 (replicate 19 Update) = s110"
    by (simp add: s110_def f91 fly_def)
  have f110: "gameRunning s110" "\<not> gameOver s110" "standard s110"
    "\<not> allBlocksDestroyed (blocks s110)"
    using f91 by (simp_all add: s110_def standard_def)
  define s111 where "s111 = s91\<lparr>ball := \<lparr>ball_x = 400 + 111 * diag, ball_y = 550 - 71 * diag,
                                  ball_dx = - diag, ball_dy = diag, ball_radius = 10\<rparr>\<rparr>"
  have "update s110 = s110\<lparr>ball := (Ball_move (ball s110))\<lparr>ball_dx := - ball_dx (ball s110)\<rparr>\<rparr>"
    using diag_bounds by (intro update_wall_right f110) (simp_all add: s110_def)
  then have r111: "update s110 = s111"
    by (simp add: s110_def s111_def Ball_move_def)
  have f111: "gameRunning s111" "\<not> gameOver s111" "standard s111"
    "\<not> allBlocksDestroyed (blocks s111)" "paddle_x (paddle s111) = 400"
    "ball s111 = \<lparr>ball_x = 400 + 111 * diag, ball_y = 550 - 71 * diag,
                  ball_dx = - diag, ball_dy = diag, ball_radius = 10\<rparr>"
    using f91 by (simp_all add: s111_def standard_def)
  text \<open>Eighty-seven frames down and to the left, past the paddle, then below the window.\<close>
  define s198 where "s198 = s91\<lparr>ball := \<lparr>ball_x = 400 + 24 * diag, ball_y = 550 + 16 * diag,
                                  ball_dx = - diag, ball_dy = diag, ball_radius = 10\<rparr>\<rparr>"
  have "run s111 (replicate 87 Update) = s111\<lparr>ball := fly 87 (ball s111)\<rparr>"
    using diag_bounds
    by (intro free_flight_box[where xl = 450 and xh = 790 and yl = 230 and yh = 610] f111)
       (simp_all add: f111 in_box_def)
  then have r198: "run s111 (replicate 87 Update) = s198"
    by (simp add: s198_def s111_def fly_def)
  have f198: "gameRunning s198" "\<not> gameOver s198" "standard s198"
    "\<not> allBlocksDestroyed (blocks s198)"
    using f91 by (simp_all add: s198_def standard_def)
  have r199: "update s198 =
     (if lives s198 - 1 \<le> 0
      then s198\<lparr>ball := Ball_move (ball s198), lives := lives s198 - 1, gameOver := True\<rparr>
      else s198\<lparr>ball := (Ball_move (ball s198))\<lparr>ball_x := paddle_x (paddle s198), ball_y := 550,
                   ball_dx := BALL_SPEED * cos (pi / 4), ball_dy := - BALL_SPEED * sin (pi / 4)\<rparr>,
             lives := lives s198 - 1, gameRunning := False\<rparr>)"
    using diag_bounds by (intro update_exit f198) (simp_all add: s198_def)
  have "run (resetGame s0) one_ball = update s198"
    by (simp add: one_ball_def frames_199 run_append f0_def[symmetric] r90 r91 r110 r111 r198)
  then have fin: "run (resetGame s0) one_ball =
     (if lives s0 - 1 \<le> 0
      then s198\<lparr>ball := Ball_move (ball s198), lives := lives s0 - 1, gameOver := True\<rparr>
      else s198\<lparr>ball := (Ball_move (ball s198))\<lparr>ball_x := paddle_x (paddle s198), ball_y := 550,
                   ball_dx := BALL_SPEED * cos (pi / 4), ball_dy := - BALL_SPEED * sin (pi / 4)\<rparr>,
             lives := lives s0 - 1, gameRunning := False\<rparr>)"
    using r199 f91 by (simp add: s198_def)
  have g198: "rand_seq s198 = steady_rand" "score s198 = score s0 + 10" "gameRunning s198"
    "\<not> gameOver s198" "\<not> allBlocksDestroyed (blocks s198)"
    using f91 by (simp_all add: s198_def)
  show "lives (run (resetGame s0) one_ball) = lives s0 - 1"
    unfolding fin by simp
  show "score (run (resetGame s0) one_ball) = score s0 + 10"
    unfolding fin using g198 by simp
  show "rand_seq (run (resetGame s0) one_ball) = steady_rand"
    unfolding fin using g198 by simp
  show "gameOver (run (resetGame s0) one_ball) \<longleftrightarrow> lives s0 \<le> 1"
    unfolding fin using g198 by simp
  show "gameRunning (run (resetGame s0) one_ball) \<longleftrightarrow> lives s0 \<le> 1"
    unfolding fin using g198 by simp
  show "\<not> allBlocksDestroyed (blocks (run (resetGame s0) one_ball))"
    unfolding fin using g198 by simp
qed

subsection \<open>Three balls\<close>

lemma new_game_steady:
  "new_game steady_rand =
     resetGame \<lparr>ball = Ball_new 0 0 0, paddle = Paddle_new 0 0 0 0, blocks = [],
                gameRunning = False, gameOver = False, score = 0, lives = 3,
                rand_seq = steady_rand\<rparr>"
  by (simp add: new_game_def)

lemma after_one_ball:
  "lives (run (new_game steady_rand) one_ball) = 2"
  "score (run (new_game steady_rand) one_ball) = 10"
  "rand_seq (run (new_game steady_rand) one_ball) = steady_rand"
  "\<not> gameOver (run (new_game steady_rand) one_ball)"
  unfolding new_game_steady by (simp_all add: one_ball_played)

lemma after_two_balls:
  "lives (run (new_game steady_rand) (one_ball @ ResetGame # one_ball)) = 1"
  "score (run (new_game steady_rand) (one_ball @ ResetGame # one_ball)) = 20"
  "rand_seq (run (new_game steady_rand) (one_ball @ ResetGame # one_ball)) = steady_rand"
  by (simp_all add: run_append one_ball_played after_one_ball)

lemma three_balls_split:
  "run s three_balls = run (resetGame (run s (one_ball @ ResetGame # one_ball))) one_ball"
  by (simp add: three_balls_def run_append)

lemma finished_game_facts:
  "lives finished_game = 0" "score finished_game = 30" "rand_seq finished_game = steady_rand"
  "gameOver finished_game" "gameRunning finished_game"
  "\<not> allBlocksDestroyed (blocks finished_game)" "standard finished_game"
proof -
  show "lives finished_game = 0" "score finished_game = 30" "rand_seq finished_game = steady_rand"
    "gameOver finished_game" "gameRunning finished_game"
    "\<not> allBlocksDestroyed (blocks finished_game)"
    unfolding finished_game_def three_balls_split
    by (simp_all add: one_ball_played after_two_balls)
  show "standard finished_game"
    using game_inv_run[of steady_rand three_balls] by (simp add: finished_game_def game_inv_def)
qed

lemma all_active_count: "list_all block_active bs \<Longrightarrow> inactive_count bs = 0"
  by (induction bs) (simp_all add: inactive_count_def)

subsection \<open>The accounts of a game that is never reset\<close>

lemma inactive_count_append:
  "inactive_count (xs @ ys) = inactive_count xs + inactive_count ys"
  by (simp add: inactive_count_def)

lemma block_collisions_score:
  "fst (snd (snd (block_collisions bs b sc g))) - 10 * inactive_count (fst (block_collisions bs b sc g))
     = sc - 10 * inactive_count bs"
  by (induction bs) (auto simp: inactive_count_def split: prod.splits)

lemma block_collisions_blocks_cases:
  "fst (block_collisions bs b sc g) = bs \<or> (\<exists>blk\<in>set bs. block_active blk \<and> block_hit b blk)"
proof (cases "\<exists>blk\<in>set bs. block_active blk \<and> block_hit b blk")
  case False
  then show ?thesis using block_collisions_miss[of bs b sc g] by auto
qed simp

lemma accounts_new_game: "accounts_ok (new_game g)"
  using init_blocks_not_destroyed[of g] init_blocks_active[of g]
  by (simp add: accounts_ok_def new_game_fields all_active_count)

lemma accounts_start: "accounts_ok s \<Longrightarrow> accounts_ok (start s)"
  by (simp add: accounts_ok_def start_def)

lemma accounts_movePaddle: "accounts_ok s \<Longrightarrow> accounts_ok (movePaddle v s)"
  by (simp add: accounts_ok_def movePaddle_def Let_def)

lemma accounts_click: "accounts_ok s \<Longrightarrow> accounts_ok (on_button_press s)"
  by (auto simp: accounts_ok_def on_button_press_def start_def)

lemma accounts_update:
  assumes acc: "accounts_ok s" and st: "standard s"
  shows "accounts_ok (update s)"
proof (cases "gameRunning s \<and> \<not> gameOver s")
  case False
  then show ?thesis using acc by (auto simp: update_def)
next
  case True
  define b3 where "b3 = paddle_collision (wall_collision (Ball_move (ball s))) (paddle s)"
  define res where "res = block_collisions (blocks s) b3 (score s) (rand_seq s)"
  define s1 where "s1 = s\<lparr>ball := fst (snd res), blocks := fst res,
                            score := fst (snd (snd res)), rand_seq := snd (snd (snd res))\<rparr>"
  have upd: "update s = victory_check (bottom_check s1)"
    using True update_running[of s] by (simp add: s1_def res_def b3_def)
  have l: "1 \<le> lives s" and nd: "\<not> allBlocksDestroyed (blocks s)"
    using acc True by (auto simp: accounts_ok_def)
  have sc: "score s1 = 10 * inactive_count (blocks s1)"
    using block_collisions_score[of "blocks s" b3 "score s" "rand_seq s"] acc
    by (simp add: s1_def res_def accounts_ok_def)
  have r3: "ball_radius b3 = 10" using st by (simp add: b3_def standard_def consts_defs)
  have same: "blocks s1 = blocks s" if "230 \<le> ball_y b3"
  proof -
    have "\<not> block_hit b3 blk" if "blk \<in> set (blocks s)" for blk
      using grid_not_hit[OF standard_grid[OF st that] r3] \<open>230 \<le> ball_y b3\<close> by blast
    then show ?thesis
      using block_collisions_blocks_cases[of "blocks s" b3 "score s" "rand_seq s"]
      by (auto simp: s1_def res_def)
  qed
  have y1: "ball_y (ball s1) = ball_y b3" "ball_radius (ball s1) = 10"
    by (simp_all add: s1_def res_def r3)
  show ?thesis
  proof (cases "ball_y (ball s1) - of_int (ball_radius (ball s1)) > of_int WINDOW_HEIGHT")
    case False
    then have "bottom_check s1 = s1" by (simp add: bottom_check_def)
    then show ?thesis
      unfolding upd using sc l True
      by (auto simp: victory_check_def accounts_ok_def s1_def)
  next
    case exit: True
    then have "230 \<le> ball_y b3" by (simp add: y1 WINDOW_HEIGHT_def)
    then have b: "blocks s1 = blocks s" by (rule same)
    show ?thesis
      unfolding upd using sc l True nd exit b
      by (auto simp: victory_check_def bottom_check_def accounts_ok_def Let_def s1_def)
  qed
qed

lemma accounts_run:
  assumes "ResetGame \<notin> set evs"
  shows "accounts_ok (run (new_game g) evs)"
  using assms
proof (induction evs rule: rev_induct)
  case Nil
  then show ?case by (simp add: accounts_new_game)
next
  case (snoc e evs)
  then have ih: "accounts_ok (run (new_game g) evs)" and e: "e \<noteq> ResetGame" by auto
  have st: "standard (run (new_game g) evs)"
    using game_inv_run[of g evs] by (simp add: game_inv_def)
  show ?case
    using e ih st
    by (cases e)
       (simp_all add: run_append accounts_start accounts_movePaddle accounts_click accounts_update)
qed

subsection \<open>The side of a block and the paddle test\<close>

lemma closest_point_side_nearest:
  "closest_point_side t b blk = side_code (nearest_point_side (closestX b blk) (closestY b blk) blk)"
  by (simp add: closest_point_side_def nearest_point_side_def)

lemma nearest_block_collisions_eq:
  "block_collisions bs b sc g = nearest_block_collisions bs b sc g"
  by (induction bs) (simp_all add: collision_side_def closest_point_side_nearest)

lemma first_block_rect:
  "block_x first_block = 20" "block_y first_block = 50" "block_width first_block = 80"
  "block_height first_block = 30"
  by (simp_all add: first_block_def Block_new_def rand_def consts_defs)

lemma paddle_hit_std:
  assumes "ball_radius b = BALL_RADIUS" "paddle_width p = PADDLE_WIDTH" "paddle_height p = PADDLE_HEIGHT"
  shows "paddle_hit b p \<longleftrightarrow>
     \<bar>ball_y b - paddle_y p\<bar> \<le> of_int BALL_RADIUS + of_int PADDLE_HEIGHT / 2 \<and>
     \<bar>ball_x b - paddle_x p\<bar> \<le> of_int PADDLE_WIDTH / 2"
  using assms by (auto simp: paddle_hit_def consts_defs)

lemma beside_paddle_facts:
  "gameRunning beside_paddle" "\<not> gameOver beside_paddle" "standard beside_paddle"
  "\<not> allBlocksDestroyed (blocks beside_paddle)"
  "paddle beside_paddle = Paddle_new 400 570 100 20"
  "ball beside_paddle = \<lparr>ball_x = 455, ball_y = 560, ball_dx = 0, ball_dy = 5, ball_radius = 10\<rparr>"
  using standard_new_game[of steady_rand]
  by (simp_all add: beside_paddle_def new_game_fields init_blocks_not_destroyed standard_def
      BALL_RADIUS_def)

lemma hit_angle_bounds:
  assumes "paddle_hit b p" "paddle_width p = PADDLE_WIDTH"
  shows "\<bar>(ball_x b - paddle_x p) / (of_int PADDLE_WIDTH / 2)\<bar> \<le> 1"
  using assms by (simp add: paddle_hit_def PADDLE_WIDTH_def abs_le_iff)

lemma cos_third_pos:
  assumes "\<bar>h\<bar> \<le> (1::real)"
  shows "1 / 2 \<le> cos (h * (pi / 3))"
proof -
  have "cos (h * (pi / 3)) = cos \<bar>h * (pi / 3)\<bar>" by (rule cos_abs_real[symmetric])
  also have "\<dots> \<ge> cos (pi / 3)"
  proof (rule cos_monotone_0_pi_le)
    show "0 \<le> \<bar>h * (pi / 3)\<bar>" by simp
    have "\<bar>h * (pi / 3)\<bar> = \<bar>h\<bar> * (pi / 3)" by (simp add: abs_mult)
    also have "\<dots> \<le> 1 * (pi / 3)" using assms by (intro mult_right_mono) simp_all
    finally show "\<bar>h * (pi / 3)\<bar> \<le> pi / 3" by simp
    show "pi / 3 \<le> pi" by simp
  qed
  finally show ?thesis by (simp add: cos_60)
qed

lemma resetGame_all_active: "list_all block_active (blocks (resetGame s))"
  by (simp add: resetGame_blocks init_blocks_active)

text \<open>In every state reached from a new game the ball and the paddle have the dimensions
  of the constants, and the ball that reaches the paddle step of a frame moves.\<close>

lemma reachable_dimensions:
  "ball_radius (wall_collision (Ball_move (ball (run (new_game g) evs)))) = BALL_RADIUS"
  "paddle_width (paddle (run (new_game g) evs)) = PADDLE_WIDTH"
  "paddle_height (paddle (run (new_game g) evs)) = PADDLE_HEIGHT"
  "0 < (ball_dx (wall_collision (Ball_move (ball (run (new_game g) evs)))))\<^sup>2
        + (ball_dy (wall_collision (Ball_move (ball (run (new_game g) evs)))))\<^sup>2"
  using game_inv_run[of g evs]
  by (simp_all add: game_inv_def standard_def speed_ok_def wall_collision_speed)

section \<open>The claims\<close>

subsection \<open>The reset\<close>

text \<open>
  Claim C1 says that the reset reinitialises the ball, the paddle and the blocks, clears
  both flags, clears the score and restores three lives. The code of \<^verbatim>\<open>resetGame\<close> does
  the first four and assigns neither \<open>score\<close> nor \<open>lives\<close>: from the lost game (three balls
  played and lost, no life left, score 30) the reset gives all blocks active and both
  flags clear, and leaves \<open>lives = 0\<close> and \<open>score = 30\<close>.
\<close>

theorem reset_keeps_score_and_lives:
  "lives finished_game = 0 \<and> score finished_game = 30
   \<and> lives (resetGame finished_game) = 0 \<and> score (resetGame finished_game) = 30
   \<and> \<not> gameRunning (resetGame finished_game) \<and> \<not> gameOver (resetGame finished_game)
   \<and> list_all block_active (blocks (resetGame finished_game))"
  using resetGame_all_active[of finished_game]
  by (simp add: resetGame_score_lives resetGame_flags finished_game_facts)

subsection \<open>When the game is over\<close>

text \<open>
  Claim C2 says that in every state reached by resets, paddle moves, starts and frames
  the game is over exactly when no life or no active block is left. The code breaks it
  through the reset that does not restore the lives: after three lost balls and a reset
  the state has \<open>lives = 0\<close> and is not over; one more lost ball and it is over with
  \<open>lives = -1\<close> and blocks still active. (\<open>accounts_run\<close> above: without a call of
  \<^verbatim>\<open>resetGame\<close> the equivalence holds in every state.)
\<close>

theorem no_life_and_not_over:
  "lives (run (new_game steady_rand) (three_balls @ [ResetGame])) = 0
   \<and> \<not> gameOver (run (new_game steady_rand) (three_balls @ [ResetGame]))
   \<and> gameOver (run (new_game steady_rand) (three_balls @ ResetGame # one_ball))
   \<and> lives (run (new_game steady_rand) (three_balls @ ResetGame # one_ball)) = - 1
   \<and> \<not> allBlocksDestroyed (blocks (run (new_game steady_rand) (three_balls @ ResetGame # one_ball)))"
  by (simp add: run_append finished_game_def[symmetric] resetGame_score_lives resetGame_flags
      one_ball_played finished_game_facts)

subsection \<open>The score\<close>

text \<open>
  Claim C3 says that in every reachable state the score is ten times the number of
  inactive blocks. The code breaks it through the reset that does not clear the score:
  after one ball, which destroys one block, and a reset, the score is 10 and no block is
  inactive. (\<open>accounts_run\<close> above: without a call of \<^verbatim>\<open>resetGame\<close> the equation holds in
  every state.)
\<close>

theorem score_survives_reset:
  "score (run (new_game steady_rand) (one_ball @ [ResetGame])) = 10
   \<and> inactive_count (blocks (run (new_game steady_rand) (one_ball @ [ResetGame]))) = 0"
  using resetGame_all_active[of "run (new_game steady_rand) one_ball"]
  by (simp add: run_append resetGame_score_lives after_one_ball all_active_count)

subsection \<open>The speed of the ball\<close>

text \<open>
  Over the reals the speed \<open>sqrt (dx\<^sup>2 + dy\<^sup>2)\<close> is \<open>BALL_SPEED\<close> exactly, in every state
  reached from a new game by any events: the walls and the paddle keep the magnitude and
  a block hit renormalises a vector that is not zero. This is a property of the model
  only. In the source the reflection by the paddle (lines 210 to 212) rounds in doubles
  and nothing but a block hit renormalises, so the computed speed can drift; a bound on
  that drift is a statement about the rounding of doubles, which the model does not
  have.
\<close>

lemma speed_exact_over_reals:
  "sqrt ((ball_dx (ball (run (new_game g) evs)))\<^sup>2 + (ball_dy (ball (run (new_game g) evs)))\<^sup>2)
     = BALL_SPEED"
proof -
  have "speed_ok (ball (run (new_game g) evs))"
    using game_inv_run[of g evs] by (simp add: game_inv_def)
  then have "sqrt ((ball_dx (ball (run (new_game g) evs)))\<^sup>2 + (ball_dy (ball (run (new_game g) evs)))\<^sup>2)
      = sqrt (5\<^sup>2)"
    by (simp add: speed_ok_def)
  then show ?thesis by (simp add: BALL_SPEED_def)
qed

subsection \<open>Side classification\<close>

text \<open>
  Claim C5. In the block step of a frame the side that takes effect is the one of the
  nearest-point rule: left where \<open>closestX\<close> is the block's \<open>x\<close>, else right where it is
  \<open>x\<close> plus the width, else top where \<open>closestY\<close> is the block's \<open>y\<close>, else bottom. The
  side computed from the times of impact is overwritten whatever its value \<open>t\<close>, and the
  frame is the frame that computes no time of impact at all.
\<close>

theorem side_is_nearest_point:
  "collision_side b blk = side_code (nearest_point_side (closestX b blk) (closestY b blk) blk)
   \<and> closest_point_side t b blk = collision_side b blk
   \<and> update s = nearest_tick s"
  by (simp add: collision_side_def closest_point_side_nearest update_def nearest_tick_def
      nearest_block_collisions_eq)

theorem side_is_nearest_point_witness:
  "block_hit rising_ball first_block
   \<and> toi_side rising_ball first_block = side_code Left
   \<and> collision_side rising_ball first_block = side_code Bottom
   \<and> closest_point_side (side_code Left) rising_ball first_block = side_code Bottom
   \<and> update beside_paddle = nearest_tick beside_paddle"
proof -
  note blk = first_block_rect
  have cl: "closestX rising_ball first_block = 60" "closestY rising_ball first_block = 80"
    by (simp_all add: closestX_def closestY_def blk rising_ball_def)
  have hit: "block_hit rising_ball first_block"
    by (simp add: block_hit_def cl) (simp add: rising_ball_def consts_defs)
  have toi: "toi_side rising_ball first_block = side_code Left"
    by (simp add: toi_side_def blk rising_ball_def toi_min_def consts_defs)
  have near: "side_code (nearest_point_side 60 80 first_block) = side_code Bottom"
    by (simp add: nearest_point_side_def blk)
  show ?thesis
    using side_is_nearest_point[of rising_ball first_block "side_code Left" beside_paddle] hit toi near
    by (simp add: cl)
qed

subsection \<open>The paddle test\<close>

text \<open>
  Claim C6, as stated, fails: with the paddle at \<open>x = 400\<close> and the ball moved to
  \<open>(455, 565)\<close>, the ball's bounding extent \<open>[445, 465]\<close> overlaps the paddle's rectangle
  \<open>[350, 450]\<close> in \<open>x\<close> and both overlap in \<open>y\<close>, but the frame does not reflect the ball: it
  keeps the velocity \<open>(0, 5)\<close>.
\<close>

theorem paddle_test_counterexample:
  "gameRunning beside_paddle \<and> \<not> gameOver beside_paddle
   \<and> bounding_boxes_overlap (Ball_move (ball beside_paddle)) (paddle beside_paddle)
   \<and> \<not> paddle_hit (wall_collision (Ball_move (ball beside_paddle))) (paddle beside_paddle)
   \<and> ball (update beside_paddle) =
       \<lparr>ball_x = 455, ball_y = 565, ball_dx = 0, ball_dy = 5, ball_radius = 10\<rparr>"
proof -
  have "update beside_paddle = beside_paddle\<lparr>ball := Ball_move (ball beside_paddle)\<rparr>"
    by (intro update_free beside_paddle_facts)
       (simp add: beside_paddle_facts free_pos_def Paddle_new_def)
  then have "ball (update beside_paddle) =
       \<lparr>ball_x = 455, ball_y = 565, ball_dx = 0, ball_dy = 5, ball_radius = 10\<rparr>"
    by (simp add: beside_paddle_facts Ball_move_def)
  moreover have "bounding_boxes_overlap (Ball_move (ball beside_paddle)) (paddle beside_paddle)"
    by (simp add: bounding_boxes_overlap_def beside_paddle_facts Paddle_new_def)
  moreover have "\<not> paddle_hit (wall_collision (Ball_move (ball beside_paddle))) (paddle beside_paddle)"
    by (simp add: paddle_hit_def beside_paddle_facts Paddle_new_def)
  ultimately show ?thesis by (simp add: beside_paddle_facts)
qed

text \<open>
  Claim C6, amended. For a ball of radius 10 and a paddle of width 100 and height 20,
  the paddle step of a frame reflects the ball exactly when the ball's vertical extent
  overlaps the paddle's (the centres are at most \<open>r + PH/2\<close> apart in \<open>y\<close>) and the ball's
  centre is within the paddle's horizontal extent (at most \<open>PW/2\<close> from its centre in
  \<open>x\<close>); otherwise it leaves the ball as it is.
\<close>

theorem paddle_test_centre:
  assumes "ball_radius b = BALL_RADIUS" "paddle_width p = PADDLE_WIDTH" "paddle_height p = PADDLE_HEIGHT"
  shows "paddle_collision b p =
     (if \<bar>ball_y b - paddle_y p\<bar> \<le> of_int BALL_RADIUS + of_int PADDLE_HEIGHT / 2 \<and>
         \<bar>ball_x b - paddle_x p\<bar> \<le> of_int PADDLE_WIDTH / 2
      then paddle_reflect b p else b)"
  using paddle_hit_std[OF assms] by (simp add: paddle_collision_def)

theorem paddle_test_centre_witness:
  "ball_radius scenario_S3_ball = BALL_RADIUS \<and> paddle_width scenario_S3_paddle = PADDLE_WIDTH
   \<and> paddle_height scenario_S3_paddle = PADDLE_HEIGHT
   \<and> paddle_collision scenario_S3_ball scenario_S3_paddle = paddle_reflect scenario_S3_ball scenario_S3_paddle"
proof -
  have h: "ball_radius scenario_S3_ball = BALL_RADIUS" "paddle_width scenario_S3_paddle = PADDLE_WIDTH"
    "paddle_height scenario_S3_paddle = PADDLE_HEIGHT"
    by (simp_all add: scenario_S3_ball_def scenario_S3_paddle_def Paddle_new_def)
  show ?thesis
    using h paddle_test_centre[OF h]
    by (simp add: scenario_S3_ball_def scenario_S3_paddle_def Paddle_new_def consts_defs)
qed

subsection \<open>The reflection by the paddle\<close>

text \<open>
  Claim C7. Whenever the paddle test of a frame succeeds, for a paddle of width 100 and a
  ball that moves, the velocity after the paddle step is \<open>dx = s sin (hitPos pi / 3)\<close> and
  \<open>dy = - s cos (hitPos pi / 3)\<close>, with \<open>s\<close> the speed before the step and
  \<open>hitPos = (ball.x - paddle.x) / (PW / 2)\<close>; so \<open>dy < 0\<close>, the ball moves upward, and the
  angle from the vertical lies between minus and plus 60 degrees.
\<close>

theorem paddle_reflection_upward:
  assumes hit: "paddle_hit b p"
    and w: "paddle_width p = PADDLE_WIDTH"
    and v: "0 < (ball_dx b)\<^sup>2 + (ball_dy b)\<^sup>2"
  shows "(let hitPos = (ball_x b - paddle_x p) / (of_int PADDLE_WIDTH / 2);
              s = sqrt ((ball_dx b)\<^sup>2 + (ball_dy b)\<^sup>2);
              b' = paddle_collision b p
          in ball_dx b' = s * sin (hitPos * pi / 3) \<and>
             ball_dy b' = - s * cos (hitPos * pi / 3) \<and>
             ball_dy b' < 0 \<and>
             - (pi / 3) \<le> hitPos * pi / 3 \<and> hitPos * pi / 3 \<le> pi / 3)"
proof -
  define hitPos where "hitPos = (ball_x b - paddle_x p) / (of_int PADDLE_WIDTH / 2)"
  define s where "s = sqrt ((ball_dx b)\<^sup>2 + (ball_dy b)\<^sup>2)"
  have h1: "\<bar>hitPos\<bar> \<le> 1" using hit_angle_bounds[OF hit w] by (simp add: hitPos_def)
  have half: "real_of_int (paddle_width p sdiv 2) = of_int PADDLE_WIDTH / 2"
    by (simp add: w PADDLE_WIDTH_def)
  have spos: "0 < s"
    using v unfolding s_def by simp
  have c: "1 / 2 \<le> cos (hitPos * (pi / 3))" by (rule cos_third_pos[OF h1])
  have dx: "ball_dx (paddle_collision b p) = s * sin (hitPos * pi / 3)"
    using hit paddle_reflect_velocity[of b p]
    by (simp add: paddle_collision_def half hitPos_def s_def)
  have dy: "ball_dy (paddle_collision b p) = - s * cos (hitPos * pi / 3)"
    using hit paddle_reflect_velocity[of b p]
    by (simp add: paddle_collision_def half hitPos_def s_def)
  have "0 < s * cos (hitPos * (pi / 3))" using spos c by (intro mult_pos_pos) simp_all
  then have neg: "ball_dy (paddle_collision b p) < 0" using dy by simp
  have "\<bar>hitPos * (pi / 3)\<bar> \<le> 1 * (pi / 3)"
    unfolding abs_mult using h1 by (intro mult_mono) simp_all
  then have ang: "- (pi / 3) \<le> hitPos * pi / 3 \<and> hitPos * pi / 3 \<le> pi / 3"
    by (simp add: abs_le_iff)
  show ?thesis
    unfolding Let_def hitPos_def[symmetric] s_def[symmetric]
    using dx dy neg ang by blast
qed

theorem paddle_reflection_upward_witness:
  "paddle_hit scenario_S3_ball scenario_S3_paddle
   \<and> paddle_width scenario_S3_paddle = PADDLE_WIDTH
   \<and> 0 < (ball_dx scenario_S3_ball)\<^sup>2 + (ball_dy scenario_S3_ball)\<^sup>2
   \<and> ball_dx (paddle_collision scenario_S3_ball scenario_S3_paddle) = 5 * sin (pi / 3)
   \<and> ball_dy (paddle_collision scenario_S3_ball scenario_S3_paddle) = - 5 * cos (pi / 3)
   \<and> ball_dy (paddle_collision scenario_S3_ball scenario_S3_paddle) < 0"
proof -
  have h: "paddle_hit scenario_S3_ball scenario_S3_paddle"
    by (simp add: paddle_hit_def scenario_S3_ball_def scenario_S3_paddle_def Paddle_new_def consts_defs)
  have w: "paddle_width scenario_S3_paddle = PADDLE_WIDTH"
    by (simp add: scenario_S3_paddle_def Paddle_new_def)
  have v: "0 < (ball_dx scenario_S3_ball)\<^sup>2 + (ball_dy scenario_S3_ball)\<^sup>2"
    by (simp add: scenario_S3_ball_def)
  have e: "(ball_x scenario_S3_ball - paddle_x scenario_S3_paddle) / (of_int PADDLE_WIDTH / 2) = 1"
    "sqrt ((ball_dx scenario_S3_ball)\<^sup>2 + (ball_dy scenario_S3_ball)\<^sup>2) = 5"
    by (simp_all add: scenario_S3_ball_def scenario_S3_paddle_def Paddle_new_def PADDLE_WIDTH_def)
  from paddle_reflection_upward[OF h w v] h w v show ?thesis
    unfolding Let_def e by simp
qed

subsection \<open>The ball and the walls\<close>



subsection \<open>Losing a life\<close>

text \<open>
  Claim C9, as stated, fails: from the state of scenario S5 (running, three lives, ball
  at \<open>(400, 590)\<close> moving \<open>(0, 5)\<close>, paddle at \<open>x = 100\<close>) one frame moves the ball to
  \<open>(400, 595)\<close>, whose top \<open>585\<close> is not below the window, and no life is lost.
\<close>

theorem life_loss_counterexample:
  "lives (update (scenario_S5 steady_rand)) = 3
   \<and> gameRunning (update (scenario_S5 steady_rand))
   \<and> ball_x (ball (update (scenario_S5 steady_rand))) = 400
   \<and> ball_y (ball (update (scenario_S5 steady_rand))) = 595"
  by (simp add: scenario_S5_first_frame scenario_S5_facts)

text \<open>
  Claim C9, amended. From the state of scenario S5 the first frame leaves \<open>lives = 3\<close>
  and the game running, with the ball at \<open>(400, 595)\<close>. So do the next three: after four
  frames the ball is at \<open>(400, 610)\<close>, its top \<open>600\<close> not below the window, \<open>lives = 3\<close> and
  the game running. The life is lost in the fifth frame, which moves the ball to
  \<open>(400, 615)\<close>, wholly below the window: after five frames \<open>lives = 2\<close>, the game is not
  running, and the ball is at \<open>(100, 550)\<close> with the initial velocity
  \<open>(SPEED cos (pi / 4), - SPEED sin (pi / 4))\<close>.
\<close>

theorem life_loss_fifth_frame:
  "lives (run (scenario_S5 g) [Update]) = 3
   \<and> gameRunning (run (scenario_S5 g) [Update])
   \<and> ball_x (ball (run (scenario_S5 g) [Update])) = 400
   \<and> ball_y (ball (run (scenario_S5 g) [Update])) = 595
   \<and> lives (run (scenario_S5 g) (replicate 4 Update)) = 3
   \<and> gameRunning (run (scenario_S5 g) (replicate 4 Update))
   \<and> \<not> gameOver (run (scenario_S5 g) (replicate 4 Update))
   \<and> ball_x (ball (run (scenario_S5 g) (replicate 4 Update))) = 400
   \<and> ball_y (ball (run (scenario_S5 g) (replicate 4 Update))) = 610
   \<and> ball_dx (ball (run (scenario_S5 g) (replicate 4 Update))) = 0
   \<and> ball_dy (ball (run (scenario_S5 g) (replicate 4 Update))) = 5
   \<and> lives (run (scenario_S5 g) (replicate 5 Update)) = 2
   \<and> \<not> gameRunning (run (scenario_S5 g) (replicate 5 Update))
   \<and> \<not> gameOver (run (scenario_S5 g) (replicate 5 Update))
   \<and> ball_x (ball (run (scenario_S5 g) (replicate 5 Update))) = 100
   \<and> ball_y (ball (run (scenario_S5 g) (replicate 5 Update))) = 550
   \<and> ball_dx (ball (run (scenario_S5 g) (replicate 5 Update))) = BALL_SPEED * cos (pi / 4)
   \<and> ball_dy (ball (run (scenario_S5 g) (replicate 5 Update))) = - BALL_SPEED * sin (pi / 4)"
  unfolding scenario_S5_five_frames scenario_S5_four_frames
  by (simp add: scenario_S5_first_frame scenario_S5_facts)

subsection \<open>Moving the paddle\<close>

text \<open>
  Claim C10. In a state with \<open>gameOver\<close> set (and the paddle's width 100),
  \<open>movePaddle\<close> clamps its argument to \<open>[PW/2, W - PW/2]\<close>, assigns it to the paddle and
  changes nothing else, the ball included. In any state the ball follows the paddle only
  when neither \<open>gameRunning\<close> nor \<open>gameOver\<close> is set.
\<close>

theorem movePaddle_finished:
  assumes "paddle_width (paddle s) = PADDLE_WIDTH"
  shows "(gameOver s \<longrightarrow>
            movePaddle v s = s\<lparr>paddle := (paddle s)\<lparr>paddle_x :=
              max (of_int PADDLE_WIDTH / 2) (min (of_int WINDOW_WIDTH - of_int PADDLE_WIDTH / 2) v)\<rparr>\<rparr>)
         \<and> ball (movePaddle v s) =
             (if \<not> gameRunning s \<and> \<not> gameOver s
              then (ball s)\<lparr>ball_x :=
                max (of_int PADDLE_WIDTH / 2) (min (of_int WINDOW_WIDTH - of_int PADDLE_WIDTH / 2) v)\<rparr>
              else ball s)"
  using assms by (simp add: movePaddle_def Paddle_move_clamp Let_def) (simp add: consts_defs)

theorem movePaddle_finished_witness:
  "paddle_width (paddle finished_game) = PADDLE_WIDTH \<and> gameOver finished_game
   \<and> movePaddle 900 finished_game =
       finished_game\<lparr>paddle := (paddle finished_game)\<lparr>paddle_x := 750\<rparr>\<rparr>
   \<and> ball (movePaddle 900 finished_game) = ball finished_game"
proof -
  have w: "paddle_width (paddle finished_game) = PADDLE_WIDTH"
    using finished_game_facts(7) by (simp add: standard_def)
  have o: "gameOver finished_game" by (rule finished_game_facts)
  show ?thesis
    using w o movePaddle_finished[OF w, of 900] by (simp add: consts_defs)
qed

end
